theory Spec2Isabelle
  imports Complex_Main "HOL-Library.Multiset"
begin

section \<open>Data model of \<open>api_server.py\<close>\<close>

text \<open>
  Python strings are sequences of Unicode code points, so a string is a list of code
  points (natural numbers); \<open>ascii\<close> turns an ASCII literal into one. Python floats are
  modelled by the real numbers they denote: the scoring formulas are read as exact
  arithmetic, and there is no NaN.
\<close>

type_synonym ustring = "nat list"

definition ascii :: "string \<Rightarrow> ustring" where
  "ascii s = map of_char s"

text \<open>Exceptions of the source and of the libraries it calls.\<close>

datatype error = RuntimeError | IndexError | ValueError | AssertionError | OSError

text \<open>
  A cell of a pandas data frame read from CSV: a string, or NaN for a missing value.
  \<open>str(nan)\<close> is the string \<open>nan\<close>.
\<close>

type_synonym cell = "ustring option"

definition py_str :: "cell \<Rightarrow> ustring" where
  "py_str c = (case c of None \<Rightarrow> ascii ''nan'' | Some s \<Rightarrow> s)"

text \<open>A row of \<open>lookup_df\<close>: a multivector row joined with its canonical name.\<close>

record row =
  row_policy_item_id :: cell
  row_text :: cell
  row_section :: cell
  row_language :: cell
  row_canonical :: cell

text \<open>The dictionary appended to \<open>hits\<close> in \<open>search_ai\<close>.\<close>

record hit =
  policy_item_id :: ustring
  canonical :: ustring
  matched_text :: ustring
  hit_section :: ustring
  language :: ustring
  semantic_score :: real
  lexical_score :: real
  confidence :: real

type_synonym vec = "real list"

text \<open>
  The third-party functions the source calls. They are not part of the repository, so
  the model takes them as parameters; each call that can raise returns a sum.
  \<^item> \<open>sentence_transformer\<close>: \<open>SentenceTransformer(MODEL_NAME)\<close>;
  \<^item> \<open>encode\<close>: \<open>model.encode(texts, normalize_embeddings=True)\<close>;
  \<^item> \<open>cosine_similarity\<close>: scikit-learn's pairwise cosine similarity, one row per query;
  \<^item> \<open>argsort\<close>: \<open>np.argsort\<close>;
  \<^item> \<open>faiss_build\<close>: \<open>IndexFlatIP(embeddings.shape[1])\<close> followed by \<open>add\<close>;
  \<^item> \<open>faiss_search\<close>: \<open>faiss_index.search(q, k)\<close>, returning the rows \<open>scores[0]\<close> and
    \<open>idx[0]\<close>;
  \<^item> \<open>token_set_ratio\<close>: \<open>rapidfuzz.fuzz.token_set_ratio\<close>;
  \<^item> \<open>casefold\<close>: \<open>str.casefold\<close>; \<open>nfkc\<close>: \<open>unicodedata.normalize("NFKC", _)\<close>.
\<close>

record ('m, 'ix) libs =
  sentence_transformer :: "ustring \<Rightarrow> error + 'm"
  encode :: "'m \<Rightarrow> ustring list \<Rightarrow> error + vec list"
  cosine_similarity :: "vec list \<Rightarrow> vec list \<Rightarrow> error + real list list"
  argsort :: "real list \<Rightarrow> nat list"
  faiss_build :: "vec list \<Rightarrow> error + 'ix"
  faiss_search :: "'ix \<Rightarrow> vec list \<Rightarrow> nat \<Rightarrow> error + (real list \<times> int list)"
  token_set_ratio :: "ustring \<Rightarrow> ustring \<Rightarrow> real"
  casefold :: "ustring \<Rightarrow> ustring"
  nfkc :: "ustring \<Rightarrow> ustring"

text \<open>The module's global variables; \<open>None\<close> is Python's \<open>None\<close>.\<close>

record ('m, 'ix) globals =
  g_model :: "'m option"
  g_embeddings :: "vec list option"
  g_faiss_index :: "'ix option"
  g_lookup_df :: "row list option"

section \<open>Configuration\<close>

definition MODEL_NAME :: ustring where
  "MODEL_NAME = ascii ''sentence-transformers/distiluse-base-multilingual-cased-v2''"

definition TOP_K_DEFAULT :: int where "TOP_K_DEFAULT = 10"
definition RECALL_K :: nat where "RECALL_K = 200"
definition ALPHA_SEM :: real where "ALPHA_SEM = 75 / 100"
definition MIN_CONFIDENCE :: real where "MIN_CONFIDENCE = 50 / 100"

definition SECTION_BOOST :: "(ustring \<times> real) list" where
  "SECTION_BOOST =
     [(ascii ''CANON_LAT'', 105 / 100),
      (ascii ''CANON_EN'', 100 / 100),
      (ascii ''SYN_LAT'', 95 / 100)]"

section \<open>Python primitives\<close>

text \<open>\<open>round(x, n)\<close>: to the nearest multiple of \<open>10^-n\<close>, ties to the even one.\<close>

definition round_half_even :: "real \<Rightarrow> int" where
  "round_half_even x =
     (let f = \<lfloor>x\<rfloor>; d = x - of_int f
      in if d < 1 / 2 then f
         else if 1 / 2 < d then f + 1
         else if even f then f else f + 1)"

definition py_round :: "real \<Rightarrow> nat \<Rightarrow> real" where
  "py_round x n = of_int (round_half_even (x * 10 ^ n)) / 10 ^ n"

definition startswith :: "ustring \<Rightarrow> ustring \<Rightarrow> bool" where
  "startswith s p = (take (length p) s = p)"

text \<open>
  \<open>lookup_df.iloc[i]\<close>: position \<open>i\<close> of the frame, position \<open>len + i\<close> for a negative
  \<open>i\<close>, and \<open>IndexError\<close> outside \<open>-len \<le> i < len\<close>.
\<close>

definition iloc :: "'a list \<Rightarrow> int \<Rightarrow> error + 'a" where
  "iloc xs i =
     (if 0 \<le> i \<and> i < int (length xs) then Inr (xs ! nat i)
      else if i < 0 \<and> - int (length xs) \<le> i then Inr (xs ! nat (int (length xs) + i))
      else Inl IndexError)"

text \<open>\<open>xs[:k]\<close>: a negative \<open>k\<close> drops \<open>-k\<close> elements from the end.\<close>

definition slice_to :: "'a list \<Rightarrow> int \<Rightarrow> 'a list" where
  "slice_to xs k =
     (if 0 \<le> k then take (nat k) xs else take (nat (int (length xs) + k)) xs)"

text \<open>
  A Python \<open>dict\<close> keeps its keys in the order of first insertion; assigning to a key
  already present replaces the value in place.
\<close>

fun dict_set :: "('k \<times> 'v) list \<Rightarrow> 'k \<Rightarrow> 'v \<Rightarrow> ('k \<times> 'v) list" where
  "dict_set [] k v = [(k, v)]"
| "dict_set ((k', v') # d) k v =
     (if k' = k then (k, v) # d else (k', v') # dict_set d k v)"

definition dict_values :: "('k \<times> 'v) list \<Rightarrow> 'v list" where
  "dict_values d = map snd d"

section \<open>\<open>normalize_query_lex\<close>\<close>

text \<open>The argument of \<open>normalize_query_lex\<close>: a string, or any other Python value.\<close>

datatype pyval = Str ustring | NotStr

text \<open>The character class of U+2212 and U+2010 to U+2015 (minus sign and dashes).\<close>

definition is_dash :: "nat \<Rightarrow> bool" where
  "is_dash c = (c = 0x2212 \<or> (0x2010 \<le> c \<and> c \<le> 0x2015))"

text \<open>The characters the negated class of line 68 leaves alone: a to z, 0 to 9, space,
  hyphen, and U+00C0 to U+017F.\<close>

definition is_kept :: "nat \<Rightarrow> bool" where
  "is_kept c =
     ((0x61 \<le> c \<and> c \<le> 0x7A) \<or> (0x30 \<le> c \<and> c \<le> 0x39) \<or> c = 0x20 \<or> c = 0x2D
      \<or> (0xC0 \<le> c \<and> c \<le> 0x17F))"

text \<open>The class \<open>\s\<close> of a string pattern, and what \<open>strip()\<close> removes: \<open>str.isspace\<close>.\<close>

definition is_space :: "nat \<Rightarrow> bool" where
  "is_space c =
     ((0x09 \<le> c \<and> c \<le> 0x0D) \<or> (0x1C \<le> c \<and> c \<le> 0x20) \<or> c = 0x85 \<or> c = 0xA0
      \<or> c = 0x1680 \<or> (0x2000 \<le> c \<and> c \<le> 0x200A) \<or> c = 0x2028 \<or> c = 0x2029
      \<or> c = 0x202F \<or> c = 0x205F \<or> c = 0x3000)"

definition sub_dash :: "ustring \<Rightarrow> ustring" where
  "sub_dash s = map (\<lambda>c. if is_dash c then 0x2D else c) s"

definition sub_other :: "ustring \<Rightarrow> ustring" where
  "sub_other s = map (\<lambda>c. if is_kept c then c else 0x20) s"

text \<open>\<open>re.sub(r"\s+", " ", s)\<close>: every maximal run of whitespace becomes one space.\<close>

function sub_spaces :: "ustring \<Rightarrow> ustring" where
  "sub_spaces [] = []"
| "sub_spaces (c # cs) =
     (if is_space c then 0x20 # sub_spaces (dropWhile is_space cs)
      else c # sub_spaces cs)"
  by pat_completeness auto
termination
  by (relation "measure length") (auto simp: length_dropWhile_le less_Suc_eq_le)

definition strip :: "ustring \<Rightarrow> ustring" where
  "strip s = rev (dropWhile is_space (rev (dropWhile is_space s)))"

definition normalize_query_lex :: "('m, 'ix) libs \<Rightarrow> pyval \<Rightarrow> ustring" where
  "normalize_query_lex L v =
     (case v of
        NotStr \<Rightarrow> []
      | Str s \<Rightarrow> strip (sub_spaces (sub_other (sub_dash (nfkc L (casefold L s))))))"

section \<open>\<open>section_boost\<close>\<close>

definition section_boost :: "ustring \<Rightarrow> real" where
  "section_boost s =
     (case map_of SECTION_BOOST s of
        Some b \<Rightarrow> b
      | None \<Rightarrow> if startswith s (ascii ''COMMON_'') then 100 / 100 else 100 / 100)"

section \<open>\<open>search_ai\<close>\<close>

text \<open>
  The body of the scoring loop for one candidate \<open>(i, sem_score)\<close> whose row is \<open>r\<close>. The
  local variables \<open>lex\<close> and \<open>final_score\<close> of the source are the functions \<open>lexical\<close>
  and \<open>final_score\<close> here.
\<close>

definition lexical :: "('m, 'ix) libs \<Rightarrow> ustring \<Rightarrow> ustring \<Rightarrow> ustring \<Rightarrow> real" where
  "lexical L q_norm text canon =
     (let lex1 = token_set_ratio L q_norm (normalize_query_lex L (Str text)) / 100;
          lex2 = (if canon \<noteq> []
                  then token_set_ratio L q_norm (normalize_query_lex L (Str canon)) / 100
                  else 0)
      in max lex1 lex2)"

definition final_score :: "real \<Rightarrow> ustring \<Rightarrow> real \<Rightarrow> real" where
  "final_score sem_score sect lx =
     (let boosted_sem = sem_score * section_boost sect
      in ALPHA_SEM * boosted_sem + (1 - ALPHA_SEM) * lx)"

definition make_hit :: "('m, 'ix) libs \<Rightarrow> ustring \<Rightarrow> row \<Rightarrow> real \<Rightarrow> hit" where
  "make_hit L q_norm r sem_score =
     (let text = py_str (row_text r);
          canon = py_str (row_canonical r);
          sect = py_str (row_section r);
          lang = py_str (row_language r);
          lx = lexical L q_norm text canon
      in \<lparr> policy_item_id = py_str (row_policy_item_id r),
           canonical = canon,
           matched_text = text,
           hit_section = sect,
           language = lang,
           semantic_score = py_round sem_score 3,
           lexical_score = py_round lx 3,
           confidence = py_round (final_score sem_score sect lx * 100) 1 \<rparr>)"

text \<open>The loop \<open>for i, sem_score in zip(idx, scores)\<close>; \<open>lookup_df.iloc[i]\<close> may raise.\<close>

fun score_hits :: "('m, 'ix) libs \<Rightarrow> ustring \<Rightarrow> row list \<Rightarrow> (int \<times> real) list \<Rightarrow> error + hit list" where
  "score_hits L q_norm df [] = Inr []"
| "score_hits L q_norm df ((i, sem_score) # cs) =
     (case iloc df i of
        Inl e \<Rightarrow> Inl e
      | Inr r \<Rightarrow>
          (case score_hits L q_norm df cs of
             Inl e \<Rightarrow> Inl e
           | Inr hs \<Rightarrow> Inr (make_hit L q_norm r sem_score # hs)))"

text \<open>One iteration of the aggregation loop over \<open>hits\<close>.\<close>

definition aggregate_step :: "(ustring \<times> hit) list \<Rightarrow> hit \<Rightarrow> (ustring \<times> hit) list" where
  "aggregate_step best h =
     (let pid = policy_item_id h;
          conf_threshold = MIN_CONFIDENCE * 100
      in if (case map_of best pid of
               None \<Rightarrow> True
             | Some b \<Rightarrow> confidence h > confidence b)
         then (if confidence h \<ge> conf_threshold then dict_set best pid h else best)
         else best)"

definition best_by_entity :: "hit list \<Rightarrow> (ustring \<times> hit) list" where
  "best_by_entity hits = foldl aggregate_step [] hits"

text \<open>
  \<open>sorted(best_by_entity.values(), key=confidence, reverse=True)\<close>: a stable sort, so hits
  of equal confidence keep their order.
\<close>

definition sort_by_confidence :: "hit list \<Rightarrow> hit list" where
  "sort_by_confidence hs = sort_key (\<lambda>h. - confidence h) hs"

definition aggregate :: "hit list \<Rightarrow> int \<Rightarrow> hit list" where
  "aggregate hits top_k =
     slice_to (sort_by_confidence (dict_values (best_by_entity hits))) top_k"

text \<open>\<open>a[0]\<close> on the first axis of a two-dimensional array.\<close>

definition first_row :: "'a list \<Rightarrow> error + 'a" where
  "first_row xs = (case xs of [] \<Rightarrow> Inl IndexError | x # _ \<Rightarrow> Inr x)"

text \<open>\<open>sims[idx]\<close>: indexing an array by an array of indices.\<close>

fun take_at :: "real list \<Rightarrow> nat list \<Rightarrow> error + real list" where
  "take_at sims [] = Inr []"
| "take_at sims (i # is) =
     (if i < length sims
      then (case take_at sims is of Inl e \<Rightarrow> Inl e | Inr ss \<Rightarrow> Inr (sims ! i # ss))
      else Inl IndexError)"

text \<open>The branch without a FAISS index: lines 173 to 175.\<close>

definition recall_cosine ::
  "('m, 'ix) libs \<Rightarrow> vec list \<Rightarrow> vec list \<Rightarrow> nat \<Rightarrow> error + (int \<times> real) list" where
  "recall_cosine L q_emb embs n =
     (case cosine_similarity L q_emb embs of
        Inl e \<Rightarrow> Inl e
      | Inr m \<Rightarrow>
          (case first_row m of
             Inl e \<Rightarrow> Inl e
           | Inr sims \<Rightarrow>
               (let idx = take (min RECALL_K n) (rev (argsort L sims))
                in case take_at sims idx of
                     Inl e \<Rightarrow> Inl e
                   | Inr scores \<Rightarrow> Inr (zip (map int idx) scores))))"

text \<open>The branch with a FAISS index: lines 167 to 171.\<close>

definition recall_faiss ::
  "('m, 'ix) libs \<Rightarrow> 'ix \<Rightarrow> vec list \<Rightarrow> nat \<Rightarrow> error + (int \<times> real) list" where
  "recall_faiss L ix q_emb n =
     (case faiss_search L ix q_emb (min RECALL_K n) of
        Inl e \<Rightarrow> Inl e
      | Inr (scores, idx) \<Rightarrow> Inr (zip idx scores))"

text \<open>\<open>search_ai(query, top_k)\<close>; \<open>fa\<close> is the module constant \<open>FAISS_AVAILABLE\<close>.\<close>

definition search_hits ::
  "('m, 'ix) libs \<Rightarrow> bool \<Rightarrow> ('m, 'ix) globals \<Rightarrow> ustring \<Rightarrow> error + hit list" where
  "search_hits L fa g query =
     (case (g_model g, g_embeddings g, g_lookup_df g) of
        (Some m, Some embs, Some df) \<Rightarrow>
          (case encode L m [query] of
             Inl e \<Rightarrow> Inl e
           | Inr q_emb \<Rightarrow>
               (case (if fa then
                        (case g_faiss_index g of
                           Some ix \<Rightarrow> recall_faiss L ix q_emb (length df)
                         | None \<Rightarrow> recall_cosine L q_emb embs (length df))
                      else recall_cosine L q_emb embs (length df)) of
                  Inl e \<Rightarrow> Inl e
                | Inr cands \<Rightarrow>
                    score_hits L (normalize_query_lex L (Str query)) df cands))
      | _ \<Rightarrow> Inl RuntimeError)"

definition search_ai ::
  "('m, 'ix) libs \<Rightarrow> bool \<Rightarrow> ('m, 'ix) globals \<Rightarrow> ustring \<Rightarrow> int \<Rightarrow> error + hit list" where
  "search_ai L fa g query top_k =
     (case search_hits L fa g query of
        Inl e \<Rightarrow> Inl e
      | Inr hits \<Rightarrow> Inr (aggregate hits top_k))"

text \<open>
  Lines 159 to 175 of \<open>search_ai\<close> on their own: the guard, the encoding of the query and
  the retrieval. The result is the lookup frame together with the pairs
  \<open>zip(idx, scores)\<close> that the scoring loop runs over.
\<close>

definition recall_candidates ::
  "('m, 'ix) libs \<Rightarrow> bool \<Rightarrow> ('m, 'ix) globals \<Rightarrow> ustring
     \<Rightarrow> error + (row list \<times> (int \<times> real) list)" where
  "recall_candidates L fa g query =
     (case (g_model g, g_embeddings g, g_lookup_df g) of
        (Some m, Some embs, Some df) \<Rightarrow>
          (case encode L m [query] of
             Inl e \<Rightarrow> Inl e
           | Inr q_emb \<Rightarrow>
               (case (if fa then
                        (case g_faiss_index g of
                           Some ix \<Rightarrow> recall_faiss L ix q_emb (length df)
                         | None \<Rightarrow> recall_cosine L q_emb embs (length df))
                      else recall_cosine L q_emb embs (length df)) of
                  Inl e \<Rightarrow> Inl e
                | Inr cands \<Rightarrow> Inr (df, cands)))
      | _ \<Rightarrow> Inl RuntimeError)"

section \<open>\<open>load_multivectors\<close> and \<open>initialize_model\<close>\<close>

text \<open>
  A file on disk: missing, present but unreadable by its loader (the read raises), or
  holding a value.
\<close>

datatype 'a stored = Absent | Corrupt | Good 'a

fun is_good :: "'a stored \<Rightarrow> bool" where
  "is_good (Good x) = True"
| "is_good f = False"

text \<open>A row of \<open>novel_foods_multivectors.csv\<close>.\<close>

record mv_row =
  mv_policy_item_id :: cell
  mv_text :: cell
  mv_section :: cell
  mv_language :: cell

text \<open>
  What \<open>json.load\<close> reads from \<open>meta_multi.json\<close>: an object, of which only the values
  under \<open>row_count\<close> (as the integer it equals, if any) and \<open>model\<close> (as the string it is,
  if any) matter, or some other JSON value, on which \<open>meta.get\<close> raises.
\<close>

datatype meta = Object "int option" "ustring option" | NotObject

text \<open>The four paths of the cache directory that \<open>initialize_model\<close> writes.\<close>

datatype cache_path = EMB_MULTI | IDX_MULTI | LOOKUP_MULTI | META_MULTI

text \<open>
  The files the module reads and writes. The rows of the cards file are its columns
  \<open>policy_item_id\<close> and \<open>canonical\<close>. \<open>writable p\<close> says whether the path \<open>p\<close> can be written:
  \<open>np.save\<close>, \<open>to_csv\<close>, \<open>open(_, "w")\<close> and \<open>faiss.write_index\<close> raise on a path that
  cannot (a directory in its place, missing permissions).
\<close>

record 'ix disk =
  mv_file :: "mv_row list stored"
  cards_file :: "(cell \<times> cell) list stored"
  emb_file :: "vec list stored"
  idx_file :: "'ix stored"
  lookup_file :: "row list stored"
  meta_file :: "meta stored"
  writable :: "cache_path \<Rightarrow> bool"

text \<open>\<open>DataFrame.drop_duplicates()\<close>: of equal rows the first is kept.\<close>

definition drop_duplicates :: "'a list \<Rightarrow> 'a list" where
  "drop_duplicates xs = rev (remdups (rev xs))"

definition join_row :: "mv_row \<Rightarrow> cell \<Rightarrow> row" where
  "join_row r c =
     \<lparr> row_policy_item_id = mv_policy_item_id r, row_text = mv_text r,
       row_section = mv_section r, row_language = mv_language r, row_canonical = c \<rparr>"

text \<open>
  \<open>mv.merge(can_map, on="policy_item_id", how="left")\<close>: every left row is joined with
  each right row of the same key, in order; a left row without partner is kept once, with
  NaN for the canonical name.
\<close>

definition merge_left :: "mv_row list \<Rightarrow> (cell \<times> cell) list \<Rightarrow> row list" where
  "merge_left mv can_map =
     concat (map (\<lambda>r. case filter (\<lambda>(p, c). p = mv_policy_item_id r) can_map of
                         [] \<Rightarrow> [join_row r None]
                       | ms \<Rightarrow> map (\<lambda>(p, c). join_row r c) ms) mv)"

definition load_multivectors :: "'ix disk \<Rightarrow> error + (mv_row list \<times> row list)" where
  "load_multivectors d =
     (case mv_file d of
        Good mv \<Rightarrow>
          (case cards_file d of
             Absent \<Rightarrow> Inr (mv, merge_left mv [])
           | Corrupt \<Rightarrow> Inl OSError
           | Good cards \<Rightarrow> Inr (mv, merge_left mv (drop_duplicates cards)))
      | _ \<Rightarrow> Inl OSError)"

text \<open>Which branch of \<open>initialize_model\<close> returned.\<close>

datatype init_path = CacheHit | Rebuilt

text \<open>
  Lines 109 to 133: the globals after the \<open>try\<close> block, and whether it returned. \<open>n\<close> is
  \<open>len(texts)\<close>. An exception inside the block leaves the assignments made before it.
\<close>

definition try_cache ::
  "bool \<Rightarrow> ('m, 'ix) globals \<Rightarrow> 'ix disk \<Rightarrow> nat \<Rightarrow> ('m, 'ix) globals \<times> bool" where
  "try_cache fa g d n =
     (if emb_file d \<noteq> Absent \<and> lookup_file d \<noteq> Absent \<and> meta_file d \<noteq> Absent then
        (case meta_file d of
           Good (Object rc mdl) \<Rightarrow>
             (if rc = Some (int n) \<and> mdl = Some MODEL_NAME then
                (case emb_file d of
                   Good embs \<Rightarrow>
                     (case lookup_file d of
                        Good df \<Rightarrow>
                          (if fa \<and> idx_file d \<noteq> Absent then
                             (case idx_file d of
                                Good ix \<Rightarrow>
                                  (g \<lparr> g_embeddings := Some embs, g_lookup_df := Some df,
                                       g_faiss_index := Some ix \<rparr>, True)
                              | _ \<Rightarrow>
                                  (g \<lparr> g_embeddings := Some embs, g_lookup_df := Some df \<rparr>,
                                   False))
                           else (g \<lparr> g_embeddings := Some embs, g_lookup_df := Some df \<rparr>, True))
                      | _ \<Rightarrow> (g \<lparr> g_embeddings := Some embs \<rparr>, False))
                 | _ \<Rightarrow> (g, False))
              else (g, False))
         | _ \<Rightarrow> (g, False))
      else (g, False))"

text \<open>
  Lines 135 to 154: build the embeddings, save the cache, build the index. These
  statements are outside the \<open>try\<close> block, so an exception of the encoder, of a write or
  of the index build ends \<open>initialize_model\<close>.
\<close>

definition rebuild ::
  "('m, 'ix) libs \<Rightarrow> bool \<Rightarrow> ('m, 'ix) globals \<Rightarrow> 'ix disk \<Rightarrow> 'm \<Rightarrow> ustring list \<Rightarrow> row list
     \<Rightarrow> error + (('m, 'ix) globals \<times> 'ix disk \<times> init_path)" where
  "rebuild L fa g d m texts lookup =
     (case encode L m texts of
        Inl e \<Rightarrow> Inl e
      | Inr embs \<Rightarrow>
          if \<not> writable d EMB_MULTI then Inl OSError
          else if \<not> writable d LOOKUP_MULTI then Inl OSError
          else if \<not> writable d META_MULTI then Inl OSError
          else
            (let d1 = d \<lparr> emb_file := Good embs, lookup_file := Good lookup,
                          meta_file :=
                            Good (Object (Some (int (length texts))) (Some MODEL_NAME)) \<rparr>
             in if fa then
                  (case faiss_build L embs of
                     Inl e \<Rightarrow> Inl e
                   | Inr ix \<Rightarrow>
                       if \<not> writable d IDX_MULTI then Inl OSError
                       else Inr (g \<lparr> g_embeddings := Some embs, g_faiss_index := Some ix,
                                     g_lookup_df := Some lookup \<rparr>,
                                 d1 \<lparr> idx_file := Good ix \<rparr>, Rebuilt))
                else Inr (g \<lparr> g_embeddings := Some embs, g_lookup_df := Some lookup \<rparr>, d1,
                          Rebuilt)))"

definition initialize_model ::
  "('m, 'ix) libs \<Rightarrow> bool \<Rightarrow> ('m, 'ix) globals \<Rightarrow> 'ix disk
     \<Rightarrow> error + (('m, 'ix) globals \<times> 'ix disk \<times> init_path)" where
  "initialize_model L fa g d =
     (case sentence_transformer L MODEL_NAME of
        Inl e \<Rightarrow> Inl e
      | Inr m \<Rightarrow>
          (case load_multivectors d of
             Inl e \<Rightarrow> Inl e
           | Inr (mv, lookup) \<Rightarrow>
               (let texts = map (\<lambda>r. py_str (mv_text r)) mv;
                    (g', returned) = try_cache fa (g \<lparr> g_model := Some m \<rparr>) d (length texts)
                in if returned then Inr (g', d, CacheHit)
                   else rebuild L fa g' d m texts lookup)))"

text \<open>
  The condition under which the specification lets the cache be used, in its words: the
  cache artifacts are present and parseable, the stored \<open>row_count\<close> equals the current
  catalog size \<open>n\<close>, and the stored model identifier equals the configured model name. The
  index file is an artifact only where the index component is available, and may be
  missing.
\<close>

definition cache_usable :: "bool \<Rightarrow> 'ix disk \<Rightarrow> nat \<Rightarrow> bool" where
  "cache_usable fa d n \<longleftrightarrow>
     is_good (emb_file d) \<and> is_good (lookup_file d)
     \<and> meta_file d = Good (Object (Some (int n)) (Some MODEL_NAME))
     \<and> (fa \<longrightarrow> idx_file d \<noteq> Corrupt)"

section \<open>Auxiliary definitions for the proofs\<close>

text \<open>
  The invariant of the aggregation loop: the keys of \<open>best_by_entity\<close> are distinct, and
  every value is one of the hits seen so far, stored under its own \<open>policy_item_id\<close>, with
  a confidence at or above the threshold.
\<close>

definition entity_inv :: "hit set \<Rightarrow> (ustring \<times> hit) list \<Rightarrow> bool" where
  "entity_inv H best \<longleftrightarrow>
     distinct (map fst best) \<and>
     (\<forall>(k, h) \<in> set best.
        policy_item_id h = k \<and> MIN_CONFIDENCE * 100 \<le> confidence h \<and> h \<in> H)"

text \<open>
  The shape of a string after the whitespace substitution: every whitespace character
  is a plain space, and none is followed by another.
\<close>

fun spaced :: "ustring \<Rightarrow> bool" where
  "spaced [] = True"
| "spaced (c # cs) =
     ((is_space c \<longrightarrow> c = 0x20 \<and> (cs = [] \<or> \<not> is_space (hd cs))) \<and> spaced cs)"

section \<open>A concrete instance of the libraries\<close>

text \<open>
  Stand-ins for the third-party functions, used to run the model on concrete inputs.
  \<^item> The embedding model sends every text to the unit vector \<open>(1, 0)\<close>.
  \<^item> \<open>cosine_similarity\<close> on unit vectors is the inner product; like scikit-learn's
    input validation, it rejects a matrix of zero rows with \<open>ValueError\<close>.
  \<^item> \<open>stable_argsort\<close> is \<open>np.argsort\<close> with a stable ascending sort.
  \<^item> The index is the list of stored vectors; like the FAISS Python wrapper, the search
    asserts \<open>k > 0\<close>.
  \<^item> \<open>token_set_ratio\<close> is 100 on equal strings, as in rapidfuzz, and 0 otherwise.
  \<^item> \<open>ucd_casefold\<close> and \<open>ucd_nfkc\<close> follow the Unicode Character Database on ASCII
    and on U+00C6, U+00E6 and U+1D2D (MODIFIER LETTER CAPITAL AE, whose compatibility
    decomposition is U+00C6 and which has no case folding); elsewhere they are the
    identity.
\<close>

definition dot :: "vec \<Rightarrow> vec \<Rightarrow> real" where
  "dot u v = sum_list (map2 (*) u v)"

definition stable_argsort :: "real list \<Rightarrow> nat list" where
  "stable_argsort a = sort_key (\<lambda>i. a ! i) [0..<length a]"

definition ucd_casefold :: "ustring \<Rightarrow> ustring" where
  "ucd_casefold s =
     map (\<lambda>c. if 0x41 \<le> c \<and> c \<le> 0x5A then c + 0x20 else if c = 0xC6 then 0xE6 else c) s"

definition ucd_nfkc :: "ustring \<Rightarrow> ustring" where
  "ucd_nfkc s = map (\<lambda>c. if c = 0x1D2D then 0xC6 else c) s"

definition demo_libs :: "(unit, vec list) libs" where
  "demo_libs =
     \<lparr> sentence_transformer = (\<lambda>name. Inr ()),
       encode = (\<lambda>m texts. Inr (map (\<lambda>t. [1, 0]) texts)),
       cosine_similarity =
         (\<lambda>X Y. if Y = [] then Inl ValueError else Inr (map (\<lambda>x. map (dot x) Y) X)),
       argsort = stable_argsort,
       faiss_build = (\<lambda>embs. case embs of [] \<Rightarrow> Inl IndexError | _ \<Rightarrow> Inr embs),
       faiss_search =
         (\<lambda>ix q k.
            if k = 0 then Inl AssertionError
            else (let idx = take k (rev (stable_argsort (map (dot (hd q)) ix)))
                  in Inr (map (\<lambda>i. dot (hd q) (ix ! i)) idx, map int idx))),
       token_set_ratio = (\<lambda>a b. if a = b then 100 else 0),
       casefold = ucd_casefold,
       nfkc = ucd_nfkc \<rparr>"

definition mk_row :: "string \<Rightarrow> string \<Rightarrow> string \<Rightarrow> row" where
  "mk_row pid txt sect =
     \<lparr> row_policy_item_id = Some (ascii pid), row_text = Some (ascii txt),
       row_section = Some (ascii sect), row_language = Some (ascii ''en''),
       row_canonical = None \<rparr>"

definition mk_hit :: "string \<Rightarrow> string \<Rightarrow> string \<Rightarrow> real \<Rightarrow> real \<Rightarrow> real \<Rightarrow> hit" where
  "mk_hit pid txt sect sem lx conf =
     \<lparr> policy_item_id = ascii pid, canonical = ascii ''nan'', matched_text = ascii txt,
       hit_section = ascii sect, language = ascii ''en'', semantic_score = sem,
       lexical_score = lx, confidence = conf \<rparr>"

text \<open>
  A loaded service without FAISS index: entity \<open>X\<close> has two text variants, \<open>Y\<close> and \<open>Z\<close>
  one each.
\<close>

definition demo_rows :: "row list" where
  "demo_rows = [mk_row ''X'' ''ab'' ''CANON_EN'',
                mk_row ''X'' ''cd'' ''SYN_LAT'',
                mk_row ''Y'' ''ef'' ''CANON_LAT'',
                mk_row ''Z'' ''gh'' ''CANON_EN'']"

definition demo_embeddings :: "vec list" where
  "demo_embeddings = [[1, 0], [4 / 5, 3 / 5], [4 / 5, 3 / 5], [0, 1]]"

definition demo_globals :: "(unit, vec list) globals" where
  "demo_globals =
     \<lparr> g_model = Some (),
       g_embeddings = Some demo_embeddings,
       g_faiss_index = None,
       g_lookup_df = Some demo_rows \<rparr>"

definition demo_hits :: "hit list" where
  "demo_hits = [mk_hit ''X'' ''ab'' ''CANON_EN'' 1 1 100,
                mk_hit ''Y'' ''ef'' ''CANON_LAT'' (4 / 5) 0 63,
                mk_hit ''X'' ''cd'' ''SYN_LAT'' (4 / 5) 0 57,
                mk_hit ''Z'' ''gh'' ''CANON_EN'' 0 0 0]"

text \<open>A loaded service whose catalog has no rows.\<close>

definition empty_globals :: "(unit, vec list) globals" where
  "empty_globals =
     \<lparr> g_model = Some (), g_embeddings = Some [], g_faiss_index = None, g_lookup_df = Some [] \<rparr>"

text \<open>The same libraries with a cosine similarity that accepts a matrix of zero rows.\<close>

definition lenient_libs :: "(unit, vec list) libs" where
  "lenient_libs =
     demo_libs \<lparr> cosine_similarity := (\<lambda>X Y. Inr (map (\<lambda>x. map (dot x) Y) X)) \<rparr>"

text \<open>The globals at import time, and disks without index file.\<close>

definition no_globals :: "(unit, vec list) globals" where
  "no_globals =
     \<lparr> g_model = None, g_embeddings = None, g_faiss_index = None, g_lookup_df = None \<rparr>"

definition mk_mv :: "string \<Rightarrow> string \<Rightarrow> string \<Rightarrow> mv_row" where
  "mk_mv pid txt sect =
     \<lparr> mv_policy_item_id = Some (ascii pid), mv_text = Some (ascii txt),
       mv_section = Some (ascii sect), mv_language = Some (ascii ''en'') \<rparr>"

text \<open>No cache; the cards file names two canonical forms for the entity \<open>X\<close>.\<close>

definition dup_disk :: "vec list disk" where
  "dup_disk =
     \<lparr> mv_file = Good [mk_mv ''X'' ''ab'' ''CANON_EN''],
       cards_file = Good [(Some (ascii ''X''), Some (ascii ''cd'')),
                          (Some (ascii ''X''), Some (ascii ''ef''))],
       emb_file = Absent, idx_file = Absent, lookup_file = Absent, meta_file = Absent,
       writable = (\<lambda>p. True) \<rparr>"

text \<open>A cache written for one row by the configured model.\<close>

definition cached_disk :: "vec list disk" where
  "cached_disk =
     \<lparr> mv_file = Good [mk_mv ''X'' ''ab'' ''CANON_EN''],
       cards_file = Absent,
       emb_file = Good [[0, 1]], idx_file = Absent,
       lookup_file = Good [join_row (mk_mv ''X'' ''ab'' ''CANON_EN'') None],
       meta_file = Good (Object (Some 1) (Some MODEL_NAME)),
       writable = (\<lambda>p. True) \<rparr>"

text \<open>The same cache with an embeddings file that cannot be read.\<close>

definition broken_disk :: "vec list disk" where
  "broken_disk = cached_disk \<lparr> emb_file := Corrupt \<rparr>"

text \<open>
  The same again, where the embeddings path can be neither read nor written (a directory
  of that name, say).
\<close>

definition locked_disk :: "vec list disk" where
  "locked_disk = broken_disk \<lparr> writable := (\<lambda>p. p \<noteq> EMB_MULTI) \<rparr>"

text \<open>
  A loaded service of two rows, one stored vector equal to the query's and one opposite
  to it.
\<close>

definition polar_globals :: "(unit, vec list) globals" where
  "polar_globals =
     \<lparr> g_model = Some (),
       g_embeddings = Some [[1, 0], [- 1, 0]],
       g_faiss_index = None,
       g_lookup_df = Some [mk_row ''Y'' ''ab'' ''CANON_LAT'', mk_row ''Z'' ''gh'' ''CANON_EN''] \<rparr>"

text \<open>A loaded service of one row whose stored vector is orthogonal to the query's.\<close>

definition orthogonal_globals :: "(unit, vec list) globals" where
  "orthogonal_globals =
     \<lparr> g_model = Some (),
       g_embeddings = Some [[0, 1]],
       g_faiss_index = None,
       g_lookup_df = Some [mk_row ''Y'' ''ab'' ''CANON_LAT''] \<rparr>"

section \<open>Evaluation of the concrete instance\<close>

lemmas norm_eval = normalize_query_lex_def ucd_casefold_def ucd_nfkc_def
  sub_dash_def sub_other_def strip_def is_dash_def is_kept_def is_space_def

lemma ascii_codes:
  "ascii ''CANON_LAT'' = [67, 65, 78, 79, 78, 95, 76, 65, 84]"
  "ascii ''CANON_EN'' = [67, 65, 78, 79, 78, 95, 69, 78]"
  "ascii ''SYN_LAT'' = [83, 89, 78, 95, 76, 65, 84]"
  "ascii ''COMMON_'' = [67, 79, 77, 77, 79, 78, 95]"
  "ascii ''nan'' = [110, 97, 110]"
  "ascii ''en'' = [101, 110]"
  "ascii ''ab'' = [97, 98]"
  "ascii ''cd'' = [99, 100]"
  "ascii ''ef'' = [101, 102]"
  "ascii ''gh'' = [103, 104]"
  "ascii ''X'' = [88]"
  "ascii ''Y'' = [89]"
  "ascii ''Z'' = [90]"
  by (simp_all add: ascii_def)

lemma section_boost_values:
  "section_boost (ascii ''CANON_LAT'') = 105 / 100"
  "section_boost (ascii ''CANON_EN'') = 1"
  "section_boost (ascii ''SYN_LAT'') = 95 / 100"
  by (simp_all add: section_boost_def SECTION_BOOST_def ascii_codes)

lemma demo_normalize:
  "normalize_query_lex demo_libs (Str (ascii ''ab'')) = ascii ''ab''"
  "normalize_query_lex demo_libs (Str (ascii ''cd'')) = ascii ''cd''"
  "normalize_query_lex demo_libs (Str (ascii ''ef'')) = ascii ''ef''"
  "normalize_query_lex demo_libs (Str (ascii ''gh'')) = ascii ''gh''"
  "normalize_query_lex demo_libs (Str (ascii ''nan'')) = ascii ''nan''"
  by (simp_all add: norm_eval demo_libs_def ascii_codes)

lemma demo_lexical:
  "lexical demo_libs (ascii ''ab'') (ascii ''ab'') (ascii ''nan'') = 1"
  "lexical demo_libs (ascii ''ab'') (ascii ''cd'') (ascii ''nan'') = 0"
  "lexical demo_libs (ascii ''ab'') (ascii ''ef'') (ascii ''nan'') = 0"
  "lexical demo_libs (ascii ''ab'') (ascii ''gh'') (ascii ''nan'') = 0"
  unfolding lexical_def demo_normalize by (simp_all add: demo_libs_def ascii_codes)

lemma demo_round:
  "py_round 1 3 = 1"
  "py_round 0 3 = 0"
  "py_round (4 / 5) 3 = 4 / 5"
  "py_round 100 (Suc 0) = 100"
  "py_round 57 (Suc 0) = 57"
  "py_round 63 (Suc 0) = 63"
  "py_round 0 (Suc 0) = 0"
  by (simp_all add: py_round_def round_half_even_def)

lemma demo_make_hit:
  "make_hit demo_libs (ascii ''ab'') (mk_row ''X'' ''ab'' ''CANON_EN'') 1
     = mk_hit ''X'' ''ab'' ''CANON_EN'' 1 1 100"
  "make_hit demo_libs (ascii ''ab'') (mk_row ''X'' ''cd'' ''SYN_LAT'') (4 / 5)
     = mk_hit ''X'' ''cd'' ''SYN_LAT'' (4 / 5) 0 57"
  "make_hit demo_libs (ascii ''ab'') (mk_row ''Y'' ''ef'' ''CANON_LAT'') (4 / 5)
     = mk_hit ''Y'' ''ef'' ''CANON_LAT'' (4 / 5) 0 63"
  "make_hit demo_libs (ascii ''ab'') (mk_row ''Z'' ''gh'' ''CANON_EN'') 0
     = mk_hit ''Z'' ''gh'' ''CANON_EN'' 0 0 0"
  by (simp_all add: make_hit_def mk_row_def mk_hit_def py_str_def demo_lexical
      final_score_def section_boost_values ALPHA_SEM_def demo_round)

lemma demo_recall:
  "recall_cosine demo_libs [[1, 0]] demo_embeddings (length demo_rows)
     = Inr [(0, 1), (2, 4 / 5), (1, 4 / 5), (3, 0)]"
  by (simp add: recall_cosine_def demo_libs_def dot_def stable_argsort_def first_row_def
      demo_embeddings_def demo_rows_def RECALL_K_def
      upt_rec [of 0] upt_rec [of 1] upt_rec [of 2] upt_rec [of 3])

lemma demo_score:
  "score_hits demo_libs (ascii ''ab'') demo_rows [(0, 1), (2, 4 / 5), (1, 4 / 5), (3, 0)]
     = Inr demo_hits"
  by (simp add: demo_rows_def iloc_def Let_def demo_make_hit demo_hits_def)

lemma demo_search_hits:
  "search_hits demo_libs False demo_globals (ascii ''ab'') = Inr demo_hits"
proof -
  have enc: "encode demo_libs () [ascii ''ab''] = Inr [[1, 0]]"
    by (simp add: demo_libs_def)
  show ?thesis
    unfolding search_hits_def demo_globals_def
    by (simp add: enc demo_recall demo_normalize demo_score del: score_hits.simps)
qed

lemma demo_best:
  "best_by_entity demo_hits
     = [(ascii ''X'', mk_hit ''X'' ''ab'' ''CANON_EN'' 1 1 100),
        (ascii ''Y'', mk_hit ''Y'' ''ef'' ''CANON_LAT'' (4 / 5) 0 63)]"
  by (simp add: best_by_entity_def demo_hits_def aggregate_step_def mk_hit_def ascii_codes
      MIN_CONFIDENCE_def Let_def)

lemma demo_aggregate:
  "aggregate demo_hits 10
     = [mk_hit ''X'' ''ab'' ''CANON_EN'' 1 1 100,
        mk_hit ''Y'' ''ef'' ''CANON_LAT'' (4 / 5) 0 63]"
  by (simp add: aggregate_def demo_best dict_values_def sort_by_confidence_def slice_to_def
      mk_hit_def)

lemma demo_search:
  "search_ai demo_libs False demo_globals (ascii ''ab'') 10
     = Inr [mk_hit ''X'' ''ab'' ''CANON_EN'' 1 1 100,
            mk_hit ''Y'' ''ef'' ''CANON_LAT'' (4 / 5) 0 63]"
  by (simp add: search_ai_def demo_search_hits demo_aggregate)

section \<open>Entity aggregation\<close>

lemma dict_set_keys:
  "map fst (dict_set d k v) = (if k \<in> set (map fst d) then map fst d else map fst d @ [k])"
  by (induction d k v rule: dict_set.induct) auto

lemma dict_set_distinct: "distinct (map fst d) \<Longrightarrow> distinct (map fst (dict_set d k v))"
  by (simp add: dict_set_keys)

lemma dict_set_subset: "set (dict_set d k v) \<subseteq> insert (k, v) (set d)"
  by (induction d k v rule: dict_set.induct) auto

lemma entity_inv_step:
  assumes "entity_inv H best" "h \<in> H"
  shows "entity_inv H (aggregate_step best h)"
proof -
  have "entity_inv H (dict_set best (policy_item_id h) h)"
    if "MIN_CONFIDENCE * 100 \<le> confidence h"
    using assms that dict_set_subset [of best "policy_item_id h" h]
    unfolding entity_inv_def by (auto simp: dict_set_distinct)
  then show ?thesis
    using assms(1) by (simp add: aggregate_step_def Let_def)
qed

lemma entity_inv_foldl:
  "entity_inv H best \<Longrightarrow> set hs \<subseteq> H \<Longrightarrow> entity_inv H (foldl aggregate_step best hs)"
  by (induction hs arbitrary: best) (auto simp: entity_inv_step)

lemma entity_inv_best: "entity_inv (set hits) (best_by_entity hits)"
  unfolding best_by_entity_def by (rule entity_inv_foldl) (simp_all add: entity_inv_def)

lemma slice_to_take: "\<exists>n. slice_to xs k = take n xs"
  by (auto simp: slice_to_def)

lemma aggregate_set: "set (aggregate hits k) \<subseteq> snd ` set (best_by_entity hits)"
proof -
  obtain n where
    "aggregate hits k = take n (sort_by_confidence (dict_values (best_by_entity hits)))"
    unfolding aggregate_def using slice_to_take by blast
  then have "set (aggregate hits k)
      \<subseteq> set (sort_by_confidence (dict_values (best_by_entity hits)))"
    by (simp add: set_take_subset)
  then show ?thesis by (simp add: sort_by_confidence_def dict_values_def)
qed

lemma aggregate_distinct: "distinct (map policy_item_id (aggregate hits k))"
proof -
  let ?b = "best_by_entity hits"
  have inv: "entity_inv (set hits) ?b" by (rule entity_inv_best)
  have "map policy_item_id (dict_values ?b) = map fst ?b"
    using inv unfolding entity_inv_def dict_values_def by (auto simp: case_prod_beta)
  then have d: "distinct (map policy_item_id (dict_values ?b))"
    using inv by (simp add: entity_inv_def)
  have "mset (map policy_item_id (sort_by_confidence (dict_values ?b)))
        = mset (map policy_item_id (dict_values ?b))"
    by (simp add: sort_by_confidence_def)
  then have "distinct (map policy_item_id (sort_by_confidence (dict_values ?b)))"
    using d by (metis mset_eq_imp_distinct_iff)
  moreover obtain n where "aggregate hits k = take n (sort_by_confidence (dict_values ?b))"
    unfolding aggregate_def using slice_to_take by blast
  ultimately show ?thesis by (simp add: take_map [symmetric] distinct_take del: take_map)
qed

lemma aggregate_floor:
  "h \<in> set (aggregate hits k) \<Longrightarrow> 50 \<le> confidence h \<and> h \<in> set hits"
  using aggregate_set [of hits k] entity_inv_best [of hits]
  unfolding entity_inv_def MIN_CONFIDENCE_def by fastforce

text \<open>
  C1. Whatever the query and \<open>top_k\<close>, a result list returned by \<open>search_ai\<close> holds at most
  one hit per \<open>policy_item_id\<close>: the identifiers of its hits are pairwise distinct.
\<close>

theorem search_ai_one_hit_per_entity:
  "search_ai L fa g query top_k = Inr rs \<Longrightarrow> distinct (map policy_item_id rs)"
  by (auto simp: search_ai_def aggregate_distinct split: sum.splits)

theorem search_ai_one_hit_per_entity_witness:
  "search_ai demo_libs False demo_globals (ascii ''ab'') 10
     = Inr [mk_hit ''X'' ''ab'' ''CANON_EN'' 1 1 100,
            mk_hit ''Y'' ''ef'' ''CANON_LAT'' (4 / 5) 0 63]
   \<and> distinct (map policy_item_id [mk_hit ''X'' ''ab'' ''CANON_EN'' 1 1 100,
                                     mk_hit ''Y'' ''ef'' ''CANON_LAT'' (4 / 5) 0 63])"
  using search_ai_one_hit_per_entity [OF demo_search] demo_search by simp

text \<open>
  C2. Whatever the query and \<open>top_k\<close>, every hit of a result list returned by \<open>search_ai\<close>
  has a confidence of at least 50 (\<open>MIN_CONFIDENCE * 100\<close>). Each result is one of the
  scored candidate hits, so an entity all of whose candidate hits lie below 50 does not
  occur in the result at all.
\<close>

theorem search_ai_confidence_floor:
  assumes "search_ai L fa g query top_k = Inr rs"
  shows "(\<forall>h \<in> set rs. MIN_CONFIDENCE * 100 = 50 \<and> 50 \<le> confidence h)
    \<and> (\<exists>hits. search_hits L fa g query = Inr hits \<and> set rs \<subseteq> set hits
          \<and> (\<forall>pid. (\<forall>h \<in> set hits. policy_item_id h = pid \<longrightarrow> confidence h < 50)
                 \<longrightarrow> pid \<notin> policy_item_id ` set rs))"
proof -
  obtain hits where hits: "search_hits L fa g query = Inr hits" and rs: "rs = aggregate hits top_k"
    using assms by (auto simp: search_ai_def split: sum.splits)
  have floor: "50 \<le> confidence h \<and> h \<in> set hits" if "h \<in> set rs" for h
    using that aggregate_floor rs by blast
  have "pid \<notin> policy_item_id ` set rs"
    if "\<forall>h \<in> set hits. policy_item_id h = pid \<longrightarrow> confidence h < 50" for pid
    using that floor by fastforce
  then show ?thesis
    using hits floor by (auto simp: MIN_CONFIDENCE_def)
qed

theorem search_ai_confidence_floor_witness:
  "search_ai demo_libs False demo_globals (ascii ''ab'') 10
     = Inr [mk_hit ''X'' ''ab'' ''CANON_EN'' 1 1 100,
            mk_hit ''Y'' ''ef'' ''CANON_LAT'' (4 / 5) 0 63]
   \<and> 50 \<le> confidence (mk_hit ''X'' ''ab'' ''CANON_EN'' 1 1 100)
   \<and> 50 \<le> confidence (mk_hit ''Y'' ''ef'' ''CANON_LAT'' (4 / 5) 0 63)
   \<and> mk_hit ''Z'' ''gh'' ''CANON_EN'' 0 0 0 \<in> set demo_hits
   \<and> ascii ''Z'' \<notin> policy_item_id ` set [mk_hit ''X'' ''ab'' ''CANON_EN'' 1 1 100,
                                            mk_hit ''Y'' ''ef'' ''CANON_LAT'' (4 / 5) 0 63]"
  using search_ai_confidence_floor [OF demo_search] demo_search
  by (simp add: demo_hits_def mk_hit_def ascii_codes)

section \<open>Rounding\<close>

lemma round_half_even_cases:
  "round_half_even x = \<lfloor>x\<rfloor> \<and> x - of_int \<lfloor>x\<rfloor> \<le> 1 / 2
   \<or> round_half_even x = \<lfloor>x\<rfloor> + 1 \<and> 1 / 2 \<le> x - of_int \<lfloor>x\<rfloor>"
  by (auto simp: round_half_even_def Let_def)

lemma round_half_even_le: "x \<le> of_int k \<Longrightarrow> round_half_even x \<le> k"
  using round_half_even_cases [of x] by (auto simp: floor_le_iff; linarith)

lemma round_half_even_ge: "of_int k \<le> x \<Longrightarrow> k \<le> round_half_even x"
  using round_half_even_cases [of x] by (auto simp: le_floor_iff; linarith)

lemma round_half_even_near: "\<bar>of_int (round_half_even x) - x\<bar> \<le> 1 / 2"
  using round_half_even_cases [of x] by (auto; linarith)

lemma py_round_le: "x \<le> of_int k / 10 ^ n \<Longrightarrow> py_round x n \<le> of_int k / 10 ^ n"
proof -
  assume "x \<le> of_int k / 10 ^ n"
  then have "x * 10 ^ n \<le> of_int k" by (simp add: pos_le_divide_eq)
  then have "round_half_even (x * 10 ^ n) \<le> k" by (rule round_half_even_le)
  then have "(of_int (round_half_even (x * 10 ^ n)) :: real) \<le> of_int k" by simp
  then show ?thesis unfolding py_round_def by (simp add: divide_right_mono)
qed

lemma py_round_ge: "of_int k / 10 ^ n \<le> x \<Longrightarrow> of_int k / 10 ^ n \<le> py_round x n"
proof -
  assume "of_int k / 10 ^ n \<le> x"
  then have "of_int k \<le> x * 10 ^ n" by (simp add: pos_divide_le_eq)
  then have "k \<le> round_half_even (x * 10 ^ n)" by (rule round_half_even_ge)
  then have "(of_int k :: real) \<le> of_int (round_half_even (x * 10 ^ n))" by simp
  then show ?thesis unfolding py_round_def by (simp add: divide_right_mono)
qed

lemma py_round_near: "\<bar>py_round x n - x\<bar> \<le> 1 / (2 * 10 ^ n)"
proof -
  let ?a = "of_int (round_half_even (x * 10 ^ n)) - x * 10 ^ n :: real"
  have h: "\<bar>?a\<bar> \<le> 1 / 2"
    by (rule round_half_even_near)
  have "py_round x n - x = ?a / 10 ^ n"
    unfolding py_round_def by (simp add: field_simps)
  then have "\<bar>py_round x n - x\<bar> = \<bar>?a\<bar> / 10 ^ n"
    by (simp add: abs_divide)
  also have "\<dots> \<le> (1 / 2) / 10 ^ n"
    using h by (intro divide_right_mono) auto
  also have "\<dots> = 1 / (2 * 10 ^ n)"
    by simp
  finally show ?thesis .
qed

lemma py_round_decimal: "\<exists>k::int. py_round x n = of_int k / 10 ^ n"
  unfolding py_round_def by blast

lemma section_boost_cases:
  "section_boost s =
     (if s = ascii ''CANON_LAT'' then 105 / 100
      else if s = ascii ''SYN_LAT'' then 95 / 100 else 1)"
  by (simp add: section_boost_def SECTION_BOOST_def ascii_codes)

section \<open>Scoring of the candidates\<close>

lemma lexical_bounds:
  assumes "\<forall>a b. 0 \<le> token_set_ratio L a b \<and> token_set_ratio L a b \<le> 100"
  shows "0 \<le> lexical L q t c \<and> lexical L q t c \<le> 1"
  using assms by (auto simp: lexical_def Let_def max_def)

lemma final_score_bounds:
  assumes "0 \<le> s" "s \<le> 1" "0 \<le> lx" "lx \<le> 1"
  shows "0 \<le> final_score s sect lx"
    and "final_score s sect lx \<le> 10375 / 10000"
    and "sect \<noteq> ascii ''CANON_LAT'' \<Longrightarrow> final_score s sect lx \<le> 1"
  using assms by (auto simp: final_score_def section_boost_cases ALPHA_SEM_def)

lemma demo_round2: "py_round (415 / 4) (Suc 0) = 519 / 5"
  by (simp add: py_round_def round_half_even_def)

lemma demo_over: "make_hit demo_libs (ascii ''ab'') (mk_row ''Y'' ''ab'' ''CANON_LAT'') 1
     = mk_hit ''Y'' ''ab'' ''CANON_LAT'' 1 1 (519 / 5)"
  by (simp add: make_hit_def mk_row_def mk_hit_def py_str_def demo_lexical
      final_score_def section_boost_values ALPHA_SEM_def demo_round demo_round2)

lemma search_hits_split:
  "search_hits L fa g query =
     (case recall_candidates L fa g query of
        Inl e \<Rightarrow> Inl e
      | Inr (df, cands) \<Rightarrow> score_hits L (normalize_query_lex L (Str query)) df cands)"
  by (auto simp: search_hits_def recall_candidates_def split: option.splits sum.splits)

lemma score_hits_scored:
  "score_hits L q df cands = Inr hits \<Longrightarrow>
     length hits = length cands
     \<and> (\<forall>k < length cands. \<exists>r. iloc df (fst (cands ! k)) = Inr r
            \<and> hits ! k = make_hit L q r (snd (cands ! k)))"
proof (induction cands arbitrary: hits)
  case Nil
  then show ?case by simp
next
  case (Cons c cands)
  obtain i s where c: "c = (i, s)" by (cases c)
  from Cons.prems c obtain r hs where r: "iloc df i = Inr r"
    and hs: "score_hits L q df cands = Inr hs" and hits: "hits = make_hit L q r s # hs"
    by (auto split: sum.splits)
  have ih: "length hs = length cands
     \<and> (\<forall>k < length cands. \<exists>r. iloc df (fst (cands ! k)) = Inr r
            \<and> hs ! k = make_hit L q r (snd (cands ! k)))"
    using Cons.IH [OF hs] .
  show ?case
  proof (intro conjI allI impI)
    show "length hits = length (c # cands)" using ih hits by simp
  next
    fix k assume k: "k < length (c # cands)"
    show "\<exists>r. iloc df (fst ((c # cands) ! k)) = Inr r
            \<and> hits ! k = make_hit L q r (snd ((c # cands) ! k))"
    proof (cases k)
      case 0
      then show ?thesis using r hits c by simp
    next
      case (Suc j)
      then show ?thesis using ih k hits by simp
    qed
  qed
qed

lemma search_hits_scored:
  assumes "search_hits L fa g query = Inr hits"
  shows "\<exists>df cands. recall_candidates L fa g query = Inr (df, cands)
     \<and> length hits = length cands
     \<and> (\<forall>k < length hits. \<exists>r. iloc df (fst (cands ! k)) = Inr r
            \<and> hits ! k = make_hit L (normalize_query_lex L (Str query)) r (snd (cands ! k)))"
proof -
  obtain df cands where rc: "recall_candidates L fa g query = Inr (df, cands)"
    and sc: "score_hits L (normalize_query_lex L (Str query)) df cands = Inr hits"
    using assms unfolding search_hits_split by (auto split: sum.splits)
  show ?thesis
    using rc score_hits_scored [OF sc] by auto
qed

lemma search_ai_subset:
  "search_hits L fa g query = Inr hits \<Longrightarrow> search_ai L fa g query top_k = Inr rs
     \<Longrightarrow> set rs \<subseteq> set hits"
  using aggregate_floor by (fastforce simp: search_ai_def)

lemma final_score_range:
  assumes "- 1 \<le> s" "s \<le> 1" "0 \<le> lx" "lx \<le> 1"
  shows "- 7875 / 10000 \<le> final_score s sect lx" and "final_score s sect lx \<le> 10375 / 10000"
  using assms by (auto simp: final_score_def section_boost_cases ALPHA_SEM_def)

lemma make_hit_fields:
  "policy_item_id (make_hit L q r s) = py_str (row_policy_item_id r)"
  "matched_text (make_hit L q r s) = py_str (row_text r)"
  "hit_section (make_hit L q r s) = py_str (row_section r)"
  "semantic_score (make_hit L q r s) = py_round s 3"
  "lexical_score (make_hit L q r s)
     = py_round (lexical L q (py_str (row_text r)) (py_str (row_canonical r))) 3"
  "confidence (make_hit L q r s)
     = py_round (final_score s (py_str (row_section r))
         (lexical L q (py_str (row_text r)) (py_str (row_canonical r))) * 100) 1"
  by (simp_all add: make_hit_def Let_def)

text \<open>
  C5. Every hit that \<open>search_ai\<close> builds is scored from the row and the raw semantic
  score of its recall candidate: its confidence is the final score times 100 rounded to
  one decimal, its semantic and lexical scores are the raw semantic score and the lexical
  score rounded to three decimals, and the hits returned are among these. The final score
  is \<open>ALPHA_SEM * boosted + (1 - ALPHA_SEM) * lexical\<close> with \<open>ALPHA_SEM = 0.75\<close>, where
  \<open>boosted\<close> is the raw semantic score times the section boost: 1.05 for \<open>CANON_LAT\<close>, 1.00
  for \<open>CANON_EN\<close>, 0.95 for \<open>SYN_LAT\<close>, 1.00 for a name starting with \<open>COMMON_\<close> and 1.00
  for anything else. Rounding to \<open>n\<close> decimals yields a multiple of \<open>10^-n\<close> at distance
  at most half of \<open>10^-n\<close>.
\<close>

theorem search_hits_blend:
  fixes L :: "('m, 'ix) libs"
  assumes "search_hits L fa g query = Inr hits"
  shows "(\<exists>df cands. recall_candidates L fa g query = Inr (df, cands)
        \<and> length hits = length cands
        \<and> (\<forall>k < length hits. \<exists>r. iloc df (fst (cands ! k)) = Inr r
              \<and> policy_item_id (hits ! k) = py_str (row_policy_item_id r)
              \<and> hit_section (hits ! k) = py_str (row_section r)
              \<and> semantic_score (hits ! k) = py_round (snd (cands ! k)) 3
              \<and> lexical_score (hits ! k)
                  = py_round (lexical L (normalize_query_lex L (Str query))
                      (py_str (row_text r)) (py_str (row_canonical r))) 3
              \<and> confidence (hits ! k)
                  = py_round (final_score (snd (cands ! k)) (py_str (row_section r))
                      (lexical L (normalize_query_lex L (Str query))
                        (py_str (row_text r)) (py_str (row_canonical r))) * 100) 1))
    \<and> (\<forall>top_k rs. search_ai L fa g query top_k = Inr rs \<longrightarrow> set rs \<subseteq> set hits)
    \<and> ALPHA_SEM = 75 / 100
    \<and> (\<forall>s sect lx. final_score s sect lx
          = ALPHA_SEM * (s * section_boost sect) + (1 - ALPHA_SEM) * lx)
    \<and> section_boost (ascii ''CANON_LAT'') = 105 / 100
    \<and> section_boost (ascii ''CANON_EN'') = 100 / 100
    \<and> section_boost (ascii ''SYN_LAT'') = 95 / 100
    \<and> (\<forall>sect. startswith sect (ascii ''COMMON_'') \<longrightarrow> section_boost sect = 100 / 100)
    \<and> (\<forall>sect. sect \<notin> {ascii ''CANON_LAT'', ascii ''CANON_EN'', ascii ''SYN_LAT''}
          \<longrightarrow> section_boost sect = 100 / 100)
    \<and> (\<forall>x n. (\<exists>k::int. py_round x n = of_int k / 10 ^ n)
             \<and> \<bar>py_round x n - x\<bar> \<le> 1 / (2 * 10 ^ n))"
proof -
  obtain df cands where rc: "recall_candidates L fa g query = Inr (df, cands)"
    and len: "length hits = length cands"
    and sc: "\<forall>k < length hits. \<exists>r. iloc df (fst (cands ! k)) = Inr r
            \<and> hits ! k = make_hit L (normalize_query_lex L (Str query)) r (snd (cands ! k))"
    using search_hits_scored [OF assms] by blast
  have link: "\<exists>df cands. recall_candidates L fa g query = Inr (df, cands)
        \<and> length hits = length cands
        \<and> (\<forall>k < length hits. \<exists>r. iloc df (fst (cands ! k)) = Inr r
              \<and> policy_item_id (hits ! k) = py_str (row_policy_item_id r)
              \<and> hit_section (hits ! k) = py_str (row_section r)
              \<and> semantic_score (hits ! k) = py_round (snd (cands ! k)) 3
              \<and> lexical_score (hits ! k)
                  = py_round (lexical L (normalize_query_lex L (Str query))
                      (py_str (row_text r)) (py_str (row_canonical r))) 3
              \<and> confidence (hits ! k)
                  = py_round (final_score (snd (cands ! k)) (py_str (row_section r))
                      (lexical L (normalize_query_lex L (Str query))
                        (py_str (row_text r)) (py_str (row_canonical r))) * 100) 1)"
    using rc len sc by (metis make_hit_fields)
  have sub: "\<forall>top_k rs. search_ai L fa g query top_k = Inr rs \<longrightarrow> set rs \<subseteq> set hits"
    using search_ai_subset [OF assms] by blast
  have common: "\<forall>sect. startswith sect (ascii ''COMMON_'') \<longrightarrow> section_boost sect = 100 / 100"
    by (auto simp: section_boost_cases startswith_def ascii_codes)
  have other: "\<forall>sect. sect \<notin> {ascii ''CANON_LAT'', ascii ''CANON_EN'', ascii ''SYN_LAT''}
      \<longrightarrow> section_boost sect = 100 / 100"
    by (simp add: section_boost_cases)
  have blend: "\<forall>s sect lx. final_score s sect lx
          = ALPHA_SEM * (s * section_boost sect) + (1 - ALPHA_SEM) * lx"
    by (simp add: final_score_def)
  have rnd: "\<forall>x n. (\<exists>k::int. py_round x n = of_int k / 10 ^ n)
             \<and> \<bar>py_round x n - x\<bar> \<le> 1 / (2 * 10 ^ n)"
    using py_round_decimal py_round_near by blast
  have vals: "ALPHA_SEM = 75 / 100" "section_boost (ascii ''CANON_LAT'') = 105 / 100"
    "section_boost (ascii ''CANON_EN'') = 100 / 100" "section_boost (ascii ''SYN_LAT'') = 95 / 100"
    by (simp_all add: ALPHA_SEM_def section_boost_values)
  show ?thesis
    using link sub vals blend common other rnd by (intro conjI) assumption+
qed

lemma demo_recall_candidates:
  "recall_candidates demo_libs False demo_globals (ascii ''ab'')
     = Inr (demo_rows, [(0, 1), (2, 4 / 5), (1, 4 / 5), (3, 0)])"
proof -
  have enc: "encode demo_libs () [ascii ''ab''] = Inr [[1, 0]]"
    by (simp add: demo_libs_def)
  show ?thesis
    unfolding recall_candidates_def demo_globals_def by (simp add: enc demo_recall)
qed

lemma demo_hits_nth:
  "demo_hits ! 0 = mk_hit ''X'' ''ab'' ''CANON_EN'' 1 1 100"
  "demo_hits ! Suc 0 = mk_hit ''Y'' ''ef'' ''CANON_LAT'' (4 / 5) 0 63"
  "demo_hits ! 2 = mk_hit ''X'' ''cd'' ''SYN_LAT'' (4 / 5) 0 57"
  by (simp_all add: demo_hits_def numeral_2_eq_2)

theorem search_hits_blend_witness:
  "search_hits demo_libs False demo_globals (ascii ''ab'') = Inr demo_hits
   \<and> recall_candidates demo_libs False demo_globals (ascii ''ab'')
       = Inr (demo_rows, [(0, 1), (2, 4 / 5), (1, 4 / 5), (3, 0)])
   \<and> semantic_score (demo_hits ! Suc 0) = 4 / 5
   \<and> confidence (demo_hits ! Suc 0) = 63
   \<and> startswith (ascii ''COMMON_X'') (ascii ''COMMON_'')
   \<and> ascii ''COMMON_X'' \<notin> {ascii ''CANON_LAT'', ascii ''CANON_EN'', ascii ''SYN_LAT''}
   \<and> section_boost (ascii ''COMMON_X'') = 100 / 100"
proof -
  have sw: "startswith (ascii ''COMMON_X'') (ascii ''COMMON_'')"
    by (simp add: startswith_def ascii_def)
  have ni: "ascii ''COMMON_X'' \<notin> {ascii ''CANON_LAT'', ascii ''CANON_EN'', ascii ''SYN_LAT''}"
    by (simp add: ascii_def)
  have h: "semantic_score (demo_hits ! Suc 0) = 4 / 5" "confidence (demo_hits ! Suc 0) = 63"
    by (simp_all add: demo_hits_nth mk_hit_def)
  have sb: "section_boost (ascii ''COMMON_X'') = 100 / 100"
    using search_hits_blend [OF demo_search_hits] sw by blast
  show ?thesis
    using demo_search_hits demo_recall_candidates sw ni h sb by (intro conjI) assumption+
qed

lemma make_hit_range:
  assumes tsr: "\<forall>a b. 0 \<le> token_set_ratio L a b \<and> token_set_ratio L a b \<le> 100"
    and s: "- 1 \<le> s" "s \<le> 1"
  shows "- 1 \<le> semantic_score (make_hit L q r s) \<and> semantic_score (make_hit L q r s) \<le> 1
    \<and> 0 \<le> lexical_score (make_hit L q r s) \<and> lexical_score (make_hit L q r s) \<le> 1
    \<and> - 788 / 10 \<le> confidence (make_hit L q r s) \<and> confidence (make_hit L q r s) \<le> 1038 / 10
    \<and> (0 \<le> s \<longrightarrow> 0 \<le> semantic_score (make_hit L q r s) \<and> 0 \<le> confidence (make_hit L q r s))
    \<and> (hit_section (make_hit L q r s) \<noteq> ascii ''CANON_LAT''
          \<longrightarrow> confidence (make_hit L q r s) \<le> 100)"
proof -
  let ?lx = "lexical L q (py_str (row_text r)) (py_str (row_canonical r))"
  let ?sect = "py_str (row_section r)"
  let ?f = "final_score s ?sect ?lx"
  have lx: "0 \<le> ?lx" "?lx \<le> 1"
    using lexical_bounds [OF tsr] by auto
  have f: "- 7875 / 10000 \<le> ?f" "?f \<le> 10375 / 10000"
    using final_score_range [OF s lx] by auto
  have f0: "0 \<le> ?f" if "0 \<le> s"
    using final_score_bounds(1) [OF that s(2) lx] .
  have f1: "?f \<le> 1" if "?sect \<noteq> ascii ''CANON_LAT''"
    using that s lx by (auto simp: final_score_def section_boost_cases ALPHA_SEM_def)
  have sem: "- 1 \<le> py_round s 3" "py_round s 3 \<le> 1"
    using py_round_ge [of "- 1000" 3 s] py_round_le [of s 1000 3] s by auto
  have sem0: "0 \<le> py_round s 3" if "0 \<le> s"
    using py_round_ge [of 0 3 s] that by auto
  have lex: "0 \<le> py_round ?lx 3" "py_round ?lx 3 \<le> 1"
    using py_round_ge [of 0 3 ?lx] py_round_le [of ?lx 1000 3] lx by auto
  have c: "- 788 / 10 \<le> py_round (?f * 100) 1" "py_round (?f * 100) 1 \<le> 1038 / 10"
    using py_round_ge [of "- 788" 1 "?f * 100"] py_round_le [of "?f * 100" 1038 1] f by auto
  have c0: "0 \<le> py_round (?f * 100) 1" if "0 \<le> s"
    using py_round_ge [of 0 1 "?f * 100"] f0 [OF that] by auto
  have c1: "py_round (?f * 100) 1 \<le> 100" if "?sect \<noteq> ascii ''CANON_LAT''"
    using py_round_le [of "?f * 100" 1000 1] f1 [OF that] by auto
  show ?thesis
    using sem sem0 lex c c0 c1 by (simp add: make_hit_fields)
qed

text \<open>
  C6, as amended. Of the hits that \<open>search_ai\<close> builds, with the similarities returned by
  retrieval in \<open>[-1, 1]\<close> (the range of a cosine) and token-set ratios in \<open>[0, 100]\<close>: the
  semantic score is the rounded raw similarity and lies in \<open>[-1, 1]\<close>, the lexical score
  lies in \<open>[0, 1]\<close>, and the confidence lies in \<open>[-78.8, 103.8]\<close>. Semantic score and
  confidence are nonnegative where the raw similarity is, and the confidence is at most
  100 unless the section is \<open>CANON_LAT\<close>.
\<close>

theorem search_hits_bounds:
  fixes L :: "('m, 'ix) libs"
  assumes hits: "search_hits L fa g query = Inr hits"
    and rc: "recall_candidates L fa g query = Inr (df, cands)"
    and tsr: "\<forall>a b. 0 \<le> token_set_ratio L a b \<and> token_set_ratio L a b \<le> 100"
    and rng: "\<forall>c \<in> set cands. - 1 \<le> snd c \<and> snd c \<le> 1"
  shows "length hits = length cands
    \<and> (\<forall>k < length hits.
          semantic_score (hits ! k) = py_round (snd (cands ! k)) 3
        \<and> - 1 \<le> semantic_score (hits ! k) \<and> semantic_score (hits ! k) \<le> 1
        \<and> 0 \<le> lexical_score (hits ! k) \<and> lexical_score (hits ! k) \<le> 1
        \<and> - 788 / 10 \<le> confidence (hits ! k) \<and> confidence (hits ! k) \<le> 1038 / 10
        \<and> (0 \<le> snd (cands ! k)
              \<longrightarrow> 0 \<le> semantic_score (hits ! k) \<and> 0 \<le> confidence (hits ! k))
        \<and> (hit_section (hits ! k) \<noteq> ascii ''CANON_LAT'' \<longrightarrow> confidence (hits ! k) \<le> 100))"
proof -
  obtain df' cands' where rc': "recall_candidates L fa g query = Inr (df', cands')"
    and len: "length hits = length cands'"
    and sc: "\<forall>k < length hits. \<exists>r. iloc df' (fst (cands' ! k)) = Inr r
            \<and> hits ! k = make_hit L (normalize_query_lex L (Str query)) r (snd (cands' ! k))"
    using search_hits_scored [OF hits] by blast
  have eq: "cands' = cands" using rc rc' by simp
  have one: "semantic_score (hits ! k) = py_round (snd (cands ! k)) 3
        \<and> - 1 \<le> semantic_score (hits ! k) \<and> semantic_score (hits ! k) \<le> 1
        \<and> 0 \<le> lexical_score (hits ! k) \<and> lexical_score (hits ! k) \<le> 1
        \<and> - 788 / 10 \<le> confidence (hits ! k) \<and> confidence (hits ! k) \<le> 1038 / 10
        \<and> (0 \<le> snd (cands ! k)
              \<longrightarrow> 0 \<le> semantic_score (hits ! k) \<and> 0 \<le> confidence (hits ! k))
        \<and> (hit_section (hits ! k) \<noteq> ascii ''CANON_LAT'' \<longrightarrow> confidence (hits ! k) \<le> 100)"
    if k: "k < length hits" for k
  proof -
    obtain r where r: "hits ! k = make_hit L (normalize_query_lex L (Str query)) r (snd (cands ! k))"
      using sc k eq by blast
    have "cands ! k \<in> set cands" using k len eq by simp
    then have s: "- 1 \<le> snd (cands ! k)" "snd (cands ! k) \<le> 1" using rng by auto
    show ?thesis
      unfolding r using make_hit_range [OF tsr s, of "normalize_query_lex L (Str query)" r]
      by (simp add: make_hit_fields)
  qed
  show ?thesis
    using len eq one by blast
qed

theorem search_hits_bounds_witness:
  "search_hits demo_libs False demo_globals (ascii ''ab'') = Inr demo_hits
   \<and> recall_candidates demo_libs False demo_globals (ascii ''ab'')
       = Inr (demo_rows, [(0, 1), (2, 4 / 5), (1, 4 / 5), (3, 0)])
   \<and> 0 \<le> semantic_score (demo_hits ! 0) \<and> semantic_score (demo_hits ! 0) \<le> 1
   \<and> lexical_score (demo_hits ! 0) \<le> 1
   \<and> confidence (demo_hits ! 0) \<le> 1038 / 10
   \<and> hit_section (demo_hits ! 2) \<noteq> ascii ''CANON_LAT''
   \<and> confidence (demo_hits ! 2) \<le> 100"
proof -
  have tsr: "\<forall>a b. 0 \<le> token_set_ratio demo_libs a b \<and> token_set_ratio demo_libs a b \<le> 100"
    by (simp add: demo_libs_def)
  have rng: "\<forall>c \<in> set [(0 :: int, 1 :: real), (2, 4 / 5), (1, 4 / 5), (3, 0)].
      - 1 \<le> snd c \<and> snd c \<le> 1"
    by simp
  have len: "0 < length demo_hits" "2 < length demo_hits"
    by (simp_all add: demo_hits_def)
  have "hit_section (demo_hits ! 2) = ascii ''SYN_LAT''"
    by (simp add: demo_hits_nth mk_hit_def)
  moreover have "ascii ''SYN_LAT'' \<noteq> ascii ''CANON_LAT''"
    by (simp add: ascii_def)
  ultimately have sect: "hit_section (demo_hits ! 2) \<noteq> ascii ''CANON_LAT''"
    by simp
  have nn: "0 \<le> snd ([(0 :: int, 1 :: real), (2, 4 / 5), (1, 4 / 5), (3, 0)] ! 0)"
    by simp
  note b = search_hits_bounds [OF demo_search_hits demo_recall_candidates tsr rng]
  show ?thesis
    using b len sect nn demo_search_hits demo_recall_candidates by blast
qed

lemma demo_round_neg:
  "py_round (- 1) 3 = - 1"
  "py_round (- 75) (Suc 0) = - 75"
  "py_round 25 (Suc 0) = 25"
  "py_round (1 / 250) 3 = 1 / 250"
  "py_round (63 / 200) (Suc 0) = 3 / 10"
  by (simp_all add: py_round_def round_half_even_def)

lemma demo_polar_hits:
  "make_hit demo_libs (ascii ''ab'') (mk_row ''Z'' ''gh'' ''CANON_EN'') (- 1)
     = mk_hit ''Z'' ''gh'' ''CANON_EN'' (- 1) 0 (- 75)"
  by (simp add: make_hit_def mk_row_def mk_hit_def py_str_def demo_lexical
      final_score_def section_boost_values ALPHA_SEM_def demo_round demo_round_neg)

lemma demo_polar_recall:
  "recall_cosine demo_libs [[1, 0]] [[1, 0], [- 1, 0]] (Suc (Suc 0)) = Inr [(0, 1), (1, - 1)]"
  by (simp add: recall_cosine_def demo_libs_def dot_def stable_argsort_def first_row_def
      RECALL_K_def upt_rec [of 0] upt_rec [of 1])

lemma demo_polar_score:
  "score_hits demo_libs (ascii ''ab'')
      [mk_row ''Y'' ''ab'' ''CANON_LAT'', mk_row ''Z'' ''gh'' ''CANON_EN''] [(0, 1), (1, - 1)]
     = Inr [mk_hit ''Y'' ''ab'' ''CANON_LAT'' 1 1 (519 / 5),
            mk_hit ''Z'' ''gh'' ''CANON_EN'' (- 1) 0 (- 75)]"
  by (simp add: iloc_def demo_over demo_polar_hits)

lemma demo_polar_search_hits:
  "search_hits demo_libs False polar_globals (ascii ''ab'')
     = Inr [mk_hit ''Y'' ''ab'' ''CANON_LAT'' 1 1 (519 / 5),
            mk_hit ''Z'' ''gh'' ''CANON_EN'' (- 1) 0 (- 75)]"
proof -
  have enc: "encode demo_libs () [ascii ''ab''] = Inr [[1, 0]]"
    by (simp add: demo_libs_def)
  show ?thesis
    unfolding search_hits_def polar_globals_def
    by (simp add: enc demo_polar_recall demo_normalize demo_polar_score del: score_hits.simps)
qed

text \<open>
  C6 as stated fails in three of its bounds. For a stored vector equal to the query's, a
  \<open>CANON_LAT\<close> row and equal texts, the confidence is 103.8; for a stored vector opposite
  to the query's, the semantic score is -1 and the confidence -75.
\<close>

theorem search_hits_bounds_counterexample:
  "search_hits demo_libs False polar_globals (ascii ''ab'')
     = Inr [mk_hit ''Y'' ''ab'' ''CANON_LAT'' 1 1 (519 / 5),
            mk_hit ''Z'' ''gh'' ''CANON_EN'' (- 1) 0 (- 75)]
   \<and> \<not> confidence (mk_hit ''Y'' ''ab'' ''CANON_LAT'' 1 1 (519 / 5)) \<le> 100
   \<and> \<not> 0 \<le> semantic_score (mk_hit ''Z'' ''gh'' ''CANON_EN'' (- 1) 0 (- 75))
   \<and> \<not> 0 \<le> confidence (mk_hit ''Z'' ''gh'' ''CANON_EN'' (- 1) 0 (- 75))"
  using demo_polar_search_hits by (simp add: mk_hit_def)

lemma make_hit_not_recoverable:
  assumes sect: "hit_section (make_hit L q r s) \<in> {ascii ''CANON_LAT'', ascii ''SYN_LAT''}"
    and big: "2 / 75 < \<bar>s\<bar>"
  shows "confidence (make_hit L q r s)
      \<noteq> 100 * (75 / 100 * semantic_score (make_hit L q r s)
                + 25 / 100 * lexical_score (make_hit L q r s))"
proof
  let ?lx = "lexical L q (py_str (row_text r)) (py_str (row_canonical r))"
  let ?sect = "py_str (row_section r)"
  let ?f = "final_score s ?sect ?lx"
  let ?c = "py_round (?f * 100) 1"
  let ?ss = "py_round s 3"
  let ?ll = "py_round ?lx 3"
  assume "confidence (make_hit L q r s)
      = 100 * (75 / 100 * semantic_score (make_hit L q r s)
                + 25 / 100 * lexical_score (make_hit L q r s))"
  then have eq: "?c = 100 * (75 / 100 * ?ss + 25 / 100 * ?ll)"
    by (simp add: make_hit_fields)
  have nc: "\<bar>?c - ?f * 100\<bar> \<le> 1 / 20"
    using py_round_near [of "?f * 100" 1] by simp
  have ns: "\<bar>?ss - s\<bar> \<le> 1 / 2000"
    using py_round_near [of s 3] by simp
  have nl: "\<bar>?ll - ?lx\<bar> \<le> 1 / 2000"
    using py_round_near [of ?lx 3] by simp
  have b: "?sect = ascii ''CANON_LAT'' \<or> ?sect = ascii ''SYN_LAT''"
    using sect by (simp add: make_hit_fields)
  have f: "?f = 75 / 100 * (s * (105 / 100)) + 25 / 100 * ?lx
      \<or> ?f = 75 / 100 * (s * (95 / 100)) + 25 / 100 * ?lx"
    using b by (auto simp: final_score_def section_boost_values ALPHA_SEM_def)
  show False
    using eq nc ns nl f big by (auto simp: abs_if split: if_splits)
qed

text \<open>
  C10, as amended. The \<open>semantic_score\<close> of every hit that \<open>search_ai\<close> builds is the raw
  similarity of its recall candidate rounded to three decimals, whatever the section; the
  section boost enters the final score only, which for a \<open>CANON_LAT\<close> or \<open>SYN_LAT\<close>
  candidate with a nonzero raw similarity differs from \<open>0.75 * semantic + 0.25 * lexical\<close>.
  For such a candidate whose raw similarity exceeds \<open>2/75\<close> in absolute value, the reported
  confidence differs from \<open>100 * (0.75 * semantic_score + 0.25 * lexical_score)\<close>.
\<close>

theorem search_hits_semantic_raw:
  fixes L :: "('m, 'ix) libs"
  assumes hits: "search_hits L fa g query = Inr hits"
    and rc: "recall_candidates L fa g query = Inr (df, cands)"
  shows "length hits = length cands
    \<and> (\<forall>k < length hits.
          semantic_score (hits ! k) = py_round (snd (cands ! k)) 3
        \<and> (hit_section (hits ! k) \<in> {ascii ''CANON_LAT'', ascii ''SYN_LAT''}
              \<and> 2 / 75 < \<bar>snd (cands ! k)\<bar>
            \<longrightarrow> confidence (hits ! k)
                  \<noteq> 100 * (75 / 100 * semantic_score (hits ! k)
                            + 25 / 100 * lexical_score (hits ! k))))
    \<and> (\<forall>s sect lx. sect \<in> {ascii ''CANON_LAT'', ascii ''SYN_LAT''} \<and> s \<noteq> 0
          \<longrightarrow> final_score s sect lx \<noteq> 75 / 100 * s + 25 / 100 * lx)"
proof -
  obtain df' cands' where rc': "recall_candidates L fa g query = Inr (df', cands')"
    and len: "length hits = length cands'"
    and sc: "\<forall>k < length hits. \<exists>r. iloc df' (fst (cands' ! k)) = Inr r
            \<and> hits ! k = make_hit L (normalize_query_lex L (Str query)) r (snd (cands' ! k))"
    using search_hits_scored [OF hits] by blast
  have eq: "cands' = cands" using rc rc' by simp
  have one: "semantic_score (hits ! k) = py_round (snd (cands ! k)) 3
        \<and> (hit_section (hits ! k) \<in> {ascii ''CANON_LAT'', ascii ''SYN_LAT''}
              \<and> 2 / 75 < \<bar>snd (cands ! k)\<bar>
            \<longrightarrow> confidence (hits ! k)
                  \<noteq> 100 * (75 / 100 * semantic_score (hits ! k)
                            + 25 / 100 * lexical_score (hits ! k)))"
    if k: "k < length hits" for k
  proof -
    obtain r where r: "hits ! k = make_hit L (normalize_query_lex L (Str query)) r (snd (cands ! k))"
      using sc k eq by blast
    show ?thesis
      unfolding r using make_hit_not_recoverable [of L "normalize_query_lex L (Str query)" r
          "snd (cands ! k)"]
      by (simp add: make_hit_fields)
  qed
  have boost: "\<forall>s sect lx. sect \<in> {ascii ''CANON_LAT'', ascii ''SYN_LAT''} \<and> s \<noteq> 0
          \<longrightarrow> final_score s sect lx \<noteq> 75 / 100 * s + 25 / 100 * lx"
    by (auto simp: final_score_def section_boost_values ALPHA_SEM_def)
  show ?thesis
    using len eq one boost by blast
qed

theorem search_hits_semantic_raw_witness:
  "search_hits demo_libs False demo_globals (ascii ''ab'') = Inr demo_hits
   \<and> recall_candidates demo_libs False demo_globals (ascii ''ab'')
       = Inr (demo_rows, [(0, 1), (2, 4 / 5), (1, 4 / 5), (3, 0)])
   \<and> hit_section (demo_hits ! Suc 0) \<in> {ascii ''CANON_LAT'', ascii ''SYN_LAT''}
   \<and> 2 / 75 < \<bar>snd ([(0 :: int, 1 :: real), (2, 4 / 5), (1, 4 / 5), (3, 0)] ! Suc 0)\<bar>
   \<and> semantic_score (demo_hits ! Suc 0) = 4 / 5
   \<and> confidence (demo_hits ! Suc 0)
       \<noteq> 100 * (75 / 100 * semantic_score (demo_hits ! Suc 0)
                 + 25 / 100 * lexical_score (demo_hits ! Suc 0))"
proof -
  have len: "Suc 0 < length demo_hits"
    by (simp add: demo_hits_def)
  have sect: "hit_section (demo_hits ! Suc 0) \<in> {ascii ''CANON_LAT'', ascii ''SYN_LAT''}"
    by (simp add: demo_hits_nth mk_hit_def)
  have big: "2 / 75 < \<bar>snd ([(0 :: int, 1 :: real), (2, 4 / 5), (1, 4 / 5), (3, 0)] ! Suc 0)\<bar>"
    by simp
  have sem: "semantic_score (demo_hits ! Suc 0) = 4 / 5"
    by (simp add: demo_hits_nth mk_hit_def)
  note t = search_hits_semantic_raw [OF demo_search_hits demo_recall_candidates]
  show ?thesis
    using t len sect big sem demo_search_hits demo_recall_candidates by blast
qed

lemma demo_orthogonal_hit:
  "make_hit demo_libs (ascii ''ab'') (mk_row ''Y'' ''ab'' ''CANON_LAT'') 0
     = mk_hit ''Y'' ''ab'' ''CANON_LAT'' 0 1 25"
  by (simp add: make_hit_def mk_row_def mk_hit_def py_str_def demo_lexical
      final_score_def section_boost_values ALPHA_SEM_def demo_round demo_round_neg)

lemma demo_small_hit:
  "make_hit demo_libs (ascii ''ab'') (mk_row ''Y'' ''ef'' ''CANON_LAT'') (1 / 250)
     = mk_hit ''Y'' ''ef'' ''CANON_LAT'' (1 / 250) 0 (3 / 10)"
  by (simp add: make_hit_def mk_row_def mk_hit_def py_str_def demo_lexical
      final_score_def section_boost_values ALPHA_SEM_def demo_round demo_round_neg)

lemma demo_orthogonal_search_hits:
  "search_hits demo_libs False orthogonal_globals (ascii ''ab'')
     = Inr [mk_hit ''Y'' ''ab'' ''CANON_LAT'' 0 1 25]"
proof -
  have enc: "encode demo_libs () [ascii ''ab''] = Inr [[1, 0]]"
    by (simp add: demo_libs_def)
  have rc: "recall_cosine demo_libs [[1, 0]] [[0, 1]] (Suc 0) = Inr [(0, 0)]"
    by (simp add: recall_cosine_def demo_libs_def dot_def stable_argsort_def first_row_def
        RECALL_K_def)
  have sc: "score_hits demo_libs (ascii ''ab'') [mk_row ''Y'' ''ab'' ''CANON_LAT''] [(0, 0)]
      = Inr [mk_hit ''Y'' ''ab'' ''CANON_LAT'' 0 1 25]"
    by (simp add: iloc_def demo_orthogonal_hit)
  show ?thesis
    unfolding search_hits_def orthogonal_globals_def
    by (simp add: enc rc demo_normalize sc del: score_hits.simps)
qed

text \<open>
  C10 as stated fails for small similarities: a \<open>CANON_LAT\<close> hit of raw similarity 0, and
  one of raw similarity 0.004, report exactly
  \<open>100 * (0.75 * semantic_score + 0.25 * lexical_score)\<close> as their confidence.
\<close>

theorem confidence_recoverable_counterexample:
  "search_hits demo_libs False orthogonal_globals (ascii ''ab'')
     = Inr [mk_hit ''Y'' ''ab'' ''CANON_LAT'' 0 1 25]
   \<and> hit_section (mk_hit ''Y'' ''ab'' ''CANON_LAT'' 0 1 25) = ascii ''CANON_LAT''
   \<and> confidence (mk_hit ''Y'' ''ab'' ''CANON_LAT'' 0 1 25)
       = 100 * (75 / 100 * semantic_score (mk_hit ''Y'' ''ab'' ''CANON_LAT'' 0 1 25)
                + 25 / 100 * lexical_score (mk_hit ''Y'' ''ab'' ''CANON_LAT'' 0 1 25))
   \<and> make_hit demo_libs (ascii ''ab'') (mk_row ''Y'' ''ef'' ''CANON_LAT'') (1 / 250)
       = mk_hit ''Y'' ''ef'' ''CANON_LAT'' (1 / 250) 0 (3 / 10)
   \<and> confidence (mk_hit ''Y'' ''ef'' ''CANON_LAT'' (1 / 250) 0 (3 / 10))
       = 100 * (75 / 100 * semantic_score (mk_hit ''Y'' ''ef'' ''CANON_LAT'' (1 / 250) 0 (3 / 10))
                + 25 / 100 * lexical_score (mk_hit ''Y'' ''ef'' ''CANON_LAT'' (1 / 250) 0 (3 / 10)))"
  using demo_orthogonal_search_hits demo_small_hit by (simp add: mk_hit_def)

section \<open>Recall retrieval\<close>









text \<open>
  C9, as amended. On a loaded service whose catalog has no rows, with the query encoded,
  \<open>search_ai\<close> returns the empty list whenever the retrieval call itself returns (the
  cosine similarity over the stored embeddings, or the FAISS search for 0 neighbours);
  \<open>search_ai\<close> has no branch for an empty catalog, and an error raised by that call is the
  result of the search.
\<close>

theorem search_ai_empty_catalog:
  fixes L :: "('m, 'ix) libs"
  assumes g: "g_model g = Some m" "g_embeddings g = Some embs" "g_lookup_df g = Some []"
    and enc: "encode L m [query] = Inr q_emb"
  shows "((\<not> fa \<or> g_faiss_index g = None) \<and> cosine_similarity L q_emb embs = Inr (sims # rest)
            \<longrightarrow> search_ai L fa g query top_k = Inr [])
    \<and> (fa \<and> g_faiss_index g = Some ix \<and> faiss_search L ix q_emb 0 = Inr (scores, [])
            \<longrightarrow> search_ai L fa g query top_k = Inr [])
    \<and> ((\<not> fa \<or> g_faiss_index g = None) \<and> cosine_similarity L q_emb embs = Inl e
            \<longrightarrow> search_ai L fa g query top_k = Inl e)
    \<and> (fa \<and> g_faiss_index g = Some ix \<and> faiss_search L ix q_emb 0 = Inl e
            \<longrightarrow> search_ai L fa g query top_k = Inl e)"
proof -
  have agg: "aggregate [] top_k = []"
    by (simp add: aggregate_def best_by_entity_def dict_values_def sort_by_confidence_def
        slice_to_def)
  have c1: "recall_cosine L q_emb embs 0 = Inr []"
    if "cosine_similarity L q_emb embs = Inr (sims # rest)"
    using that by (simp add: recall_cosine_def first_row_def)
  have c2: "recall_cosine L q_emb embs 0 = Inl e" if "cosine_similarity L q_emb embs = Inl e"
    using that by (simp add: recall_cosine_def)
  have f1: "recall_faiss L ix q_emb 0 = Inr []" if "faiss_search L ix q_emb 0 = Inr (scores, [])"
    using that by (simp add: recall_faiss_def)
  have f2: "recall_faiss L ix q_emb 0 = Inl e" if "faiss_search L ix q_emb 0 = Inl e"
    using that by (simp add: recall_faiss_def)
  show ?thesis
    using c1 c2 f1 f2
    by (auto simp: search_ai_def search_hits_def g enc agg split: option.splits)
qed

theorem search_ai_empty_catalog_witness:
  "search_ai lenient_libs False empty_globals (ascii ''ab'') 10 = Inr []"
proof -
  have enc: "encode lenient_libs () [ascii ''ab''] = Inr [[1, 0]]"
    by (simp add: lenient_libs_def demo_libs_def)
  have cos: "cosine_similarity lenient_libs [[1, 0]] [] = Inr ([] # [])"
    by (simp add: lenient_libs_def demo_libs_def)
  show ?thesis
    using search_ai_empty_catalog [of empty_globals "()" "[]" lenient_libs "ascii ''ab''"
        "[[1, 0]]" False "[]" "[]" 10] enc cos
    by (simp add: empty_globals_def)
qed

text \<open>
  C9 as stated fails: with a cosine similarity that, like scikit-learn's, rejects a matrix
  of zero rows, the search over the empty catalog raises \<open>ValueError\<close>.
\<close>

theorem search_ai_empty_catalog_counterexample:
  "search_ai demo_libs False empty_globals (ascii ''ab'') 10 = Inl ValueError
   \<and> search_ai demo_libs False empty_globals (ascii ''ab'') 10 \<noteq> Inr []"
  by (simp add: search_ai_def search_hits_def empty_globals_def demo_libs_def recall_cosine_def)

section \<open>The text normalizer\<close>

lemma kept_space: "is_kept c \<Longrightarrow> is_space c \<longleftrightarrow> c = 0x20"
  by (auto simp: is_kept_def is_space_def)

lemma kept_not_dash: "is_kept c \<Longrightarrow> \<not> is_dash c"
  by (auto simp: is_kept_def is_dash_def)

lemma sub_dash_kept: "\<forall>c \<in> set z. is_kept c \<Longrightarrow> sub_dash z = z"
  by (induction z) (auto simp: sub_dash_def kept_not_dash)

lemma sub_other_kept: "\<forall>c \<in> set z. is_kept c \<Longrightarrow> sub_other z = z"
  by (induction z) (auto simp: sub_other_def)

lemma kept_sub_other: "\<forall>c \<in> set (sub_other s). is_kept c"
  by (auto simp: sub_other_def is_kept_def)

lemma kept_sub_spaces: "\<forall>c \<in> set s. is_kept c \<Longrightarrow> \<forall>c \<in> set (sub_spaces s). is_kept c"
proof (induction s rule: sub_spaces.induct)
  case 1
  then show ?case by simp
next
  case (2 c cs)
  have "\<forall>c \<in> set (dropWhile is_space cs). is_kept c"
    using 2(3) by (auto dest: set_dropWhileD)
  then show ?case
    using 2 by (auto simp: is_kept_def)
qed

lemma hd_sub_spaces: "s \<noteq> [] \<Longrightarrow> \<not> is_space (hd s) \<Longrightarrow> sub_spaces s \<noteq> [] \<and> hd (sub_spaces s) = hd s"
  by (cases s) auto

lemma spaced_sub_spaces: "spaced (sub_spaces s)"
proof (induction s rule: sub_spaces.induct)
  case 1
  then show ?case by simp
next
  case (2 c cs)
  show ?case
  proof (cases "is_space c")
    case True
    let ?d = "dropWhile is_space cs"
    have "sub_spaces ?d = [] \<or> \<not> is_space (hd (sub_spaces ?d))"
    proof (cases "?d = []")
      case True
      then show ?thesis by (metis sub_spaces.simps(1))
    next
      case False
      then have "\<not> is_space (hd ?d)" by (rule hd_dropWhile)
      then show ?thesis using False hd_sub_spaces by metis
    qed
    then show ?thesis using True 2(1) by simp
  next
    case False
    then show ?thesis using 2(2) by simp
  qed
qed

lemma sub_spaces_spaced: "spaced z \<Longrightarrow> sub_spaces z = z"
proof (induction z)
  case Nil
  then show ?case by simp
next
  case (Cons c cs)
  have tl: "sub_spaces cs = cs" using Cons by simp
  show ?case
  proof (cases "is_space c")
    case True
    then have "c = 0x20" "cs = [] \<or> \<not> is_space (hd cs)" using Cons.prems by auto
    then have "dropWhile is_space cs = cs" by (cases cs) auto
    then show ?thesis using True tl \<open>c = 0x20\<close> by simp
  next
    case False
    then show ?thesis using tl by simp
  qed
qed

lemma spaced_append_left: "spaced (xs @ ys) \<Longrightarrow> spaced xs"
  by (induction xs) (auto simp: hd_append)

lemma spaced_append_right: "spaced (xs @ ys) \<Longrightarrow> spaced ys"
  by (induction xs) auto

lemma strip_split: "\<exists>pre suf. s = pre @ strip s @ suf"
proof -
  let ?w = "dropWhile is_space s"
  have "rev ?w = takeWhile is_space (rev ?w) @ dropWhile is_space (rev ?w)"
    by simp
  then have "?w = rev (dropWhile is_space (rev ?w)) @ rev (takeWhile is_space (rev ?w))"
    by (metis rev_append rev_rev_ident)
  then have "?w = strip s @ rev (takeWhile is_space (rev ?w))"
    by (simp add: strip_def)
  moreover have "s = takeWhile is_space s @ ?w"
    by simp
  ultimately show ?thesis by metis
qed

lemma spaced_strip: "spaced s \<Longrightarrow> spaced (strip s)"
  using strip_split [of s] spaced_append_left spaced_append_right by metis

lemma kept_strip: "\<forall>c \<in> set s. is_kept c \<Longrightarrow> \<forall>c \<in> set (strip s). is_kept c"
  using strip_split [of s] by (metis Un_iff set_append)

lemma strip_ends: "strip s = [] \<or> (\<not> is_space (hd (strip s)) \<and> \<not> is_space (last (strip s)))"
proof (cases "strip s = []")
  case True
  then show ?thesis by simp
next
  case False
  let ?w = "dropWhile is_space s"
  let ?r = "dropWhile is_space (rev ?w)"
  have y: "strip s = rev ?r" by (simp add: strip_def)
  have r: "?r \<noteq> []" using False y by simp
  then have "\<not> is_space (hd ?r)" by (rule hd_dropWhile)
  then have l: "\<not> is_space (last (strip s))"
    using r y by (simp add: last_rev)
  have "rev ?w = takeWhile is_space (rev ?w) @ ?r" by simp
  then have "?w = strip s @ rev (takeWhile is_space (rev ?w))"
    by (metis rev_append rev_rev_ident y)
  then have "hd ?w = hd (strip s)" and "?w \<noteq> []"
    using False by (metis hd_append2, metis append_is_Nil_conv)
  moreover have "?w \<noteq> [] \<Longrightarrow> \<not> is_space (hd ?w)" by (rule hd_dropWhile)
  ultimately have "\<not> is_space (hd (strip s))" by simp
  then show ?thesis using l by simp
qed

lemma strip_fixed: "z = [] \<or> (\<not> is_space (hd z) \<and> \<not> is_space (last z)) \<Longrightarrow> strip z = z"
proof (cases "z = []")
  case True
  then show ?thesis by (simp add: strip_def)
next
  case False
  assume "z = [] \<or> (\<not> is_space (hd z) \<and> \<not> is_space (last z))"
  then have h: "\<not> is_space (hd z)" "\<not> is_space (last z)" using False by auto
  have "dropWhile is_space z = z" using False h(1) by (cases z) auto
  moreover have "dropWhile is_space (rev z) = rev z"
    using False h(2) by (cases "rev z") (auto simp: last_rev [symmetric] hd_rev)
  ultimately show ?thesis by (simp add: strip_def)
qed

lemma post_idem:
  "strip (sub_spaces (sub_other (sub_dash (strip (sub_spaces (sub_other (sub_dash s)))))))
     = strip (sub_spaces (sub_other (sub_dash s)))"
proof -
  define z where "z = strip (sub_spaces (sub_other (sub_dash s)))"
  have k: "\<forall>c \<in> set z. is_kept c"
    unfolding z_def by (intro kept_strip kept_sub_spaces kept_sub_other)
  have sp: "spaced z"
    unfolding z_def by (intro spaced_strip spaced_sub_spaces)
  have e: "z = [] \<or> (\<not> is_space (hd z) \<and> \<not> is_space (last z))"
    unfolding z_def by (rule strip_ends)
  have "strip (sub_spaces (sub_other (sub_dash z))) = z"
    by (simp only: sub_dash_kept [OF k] sub_other_kept [OF k] sub_spaces_spaced [OF sp]
        strip_fixed [OF e])
  then show ?thesis
    unfolding z_def .
qed

lemma normalize_Str:
  "normalize_query_lex L (Str s) = strip (sub_spaces (sub_other (sub_dash (nfkc L (casefold L s)))))"
  by (simp add: normalize_query_lex_def)

text \<open>
  C3, as amended. \<open>normalize_query_lex\<close> is idempotent at every input whose normal form
  is itself case-folded and in NFKC: normalizing the normal form again returns it. (The
  source folds case before it applies NFKC, so NFKC can bring in a character that a second
  pass folds.)
\<close>

theorem normalize_query_lex_idempotent:
  fixes L :: "('m, 'ix) libs"
  assumes cf: "casefold L (normalize_query_lex L v) = normalize_query_lex L v"
    and nf: "nfkc L (normalize_query_lex L v) = normalize_query_lex L v"
  shows "normalize_query_lex L (Str (normalize_query_lex L v)) = normalize_query_lex L v"
proof -
  let ?z = "normalize_query_lex L v"
  have fx: "strip (sub_spaces (sub_other (sub_dash ?z))) = ?z"
  proof (cases v)
    case (Str s)
    then show ?thesis
      by (simp only: normalize_Str post_idem)
  next
    case NotStr
    then show ?thesis
      by (simp add: normalize_query_lex_def strip_def sub_other_def sub_dash_def)
  qed
  have "normalize_query_lex L (Str ?z) = strip (sub_spaces (sub_other (sub_dash ?z)))"
    by (simp only: normalize_Str cf nf)
  then show ?thesis
    using fx by simp
qed

lemma demo_normalize_mixed:
  "normalize_query_lex demo_libs (Str (ascii '' Ab  c!'')) = ascii ''ab c''"
  by (simp add: norm_eval demo_libs_def ascii_def)

theorem normalize_query_lex_idempotent_witness:
  "normalize_query_lex demo_libs (Str (ascii '' Ab  c!'')) = ascii ''ab c''
   \<and> casefold demo_libs (ascii ''ab c'') = ascii ''ab c''
   \<and> nfkc demo_libs (ascii ''ab c'') = ascii ''ab c''
   \<and> normalize_query_lex demo_libs (Str (ascii ''ab c'')) = ascii ''ab c''"
proof -
  have cf: "casefold demo_libs (ascii ''ab c'') = ascii ''ab c''"
    by (simp add: demo_libs_def ucd_casefold_def ascii_def)
  have nf: "nfkc demo_libs (ascii ''ab c'') = ascii ''ab c''"
    by (simp add: demo_libs_def ucd_nfkc_def ascii_def)
  show ?thesis
    using normalize_query_lex_idempotent [of demo_libs "Str (ascii '' Ab  c!'')"]
      cf nf demo_normalize_mixed
    by simp
qed

lemma demo_normalize_ae:
  "normalize_query_lex demo_libs (Str [0x1D2D]) = [0xC6]"
  "normalize_query_lex demo_libs (Str [0xC6]) = [0xE6]"
  by (simp_all add: norm_eval demo_libs_def)

text \<open>
  C3 as stated fails at the one-character string U+1D2D: it has no case folding, NFKC
  turns it into U+00C6, which the character class of line 68 keeps, and the second pass
  folds U+00C6 to U+00E6.
\<close>

theorem normalize_query_lex_not_idempotent_counterexample:
  "normalize_query_lex demo_libs (Str [0x1D2D]) = [0xC6]
   \<and> normalize_query_lex demo_libs (Str (normalize_query_lex demo_libs (Str [0x1D2D]))) = [0xE6]
   \<and> normalize_query_lex demo_libs (Str (normalize_query_lex demo_libs (Str [0x1D2D])))
       \<noteq> normalize_query_lex demo_libs (Str [0x1D2D])"
  by (simp add: demo_normalize_ae)

section \<open>Initialization and the cache\<close>

lemma rebuild_overwrites:
  "rebuild L fa (g \<lparr> g_embeddings := x \<rparr>) d m texts lookup = rebuild L fa g d m texts lookup"
  "rebuild L fa (g \<lparr> g_embeddings := x, g_lookup_df := y \<rparr>) d m texts lookup
     = rebuild L fa g d m texts lookup"
  by (auto simp: rebuild_def Let_def split: sum.splits)

lemma try_cache_returns:
  "snd (try_cache fa g d n) \<longleftrightarrow> cache_usable fa d n"
  by (cases "emb_file d"; cases "lookup_file d"; cases "meta_file d"; cases "idx_file d")
    (auto simp: try_cache_def cache_usable_def split: meta.splits)

lemma try_cache_miss:
  "\<not> cache_usable fa d n \<Longrightarrow>
     rebuild L fa (fst (try_cache fa g d n)) d m texts lookup = rebuild L fa g d m texts lookup"
  by (cases "emb_file d"; cases "lookup_file d"; cases "meta_file d"; cases "idx_file d")
    (auto simp: try_cache_def cache_usable_def rebuild_overwrites split: meta.splits)

lemma try_cache_hit:
  assumes "cache_usable fa d n"
  shows "\<exists>embs df. emb_file d = Good embs \<and> lookup_file d = Good df
      \<and> g_model (fst (try_cache fa g d n)) = g_model g
      \<and> g_embeddings (fst (try_cache fa g d n)) = Some embs
      \<and> g_lookup_df (fst (try_cache fa g d n)) = Some df
      \<and> (fa \<and> idx_file d \<noteq> Absent
            \<longrightarrow> (\<exists>ix. idx_file d = Good ix \<and> g_faiss_index (fst (try_cache fa g d n)) = Some ix))
      \<and> (\<not> (fa \<and> idx_file d \<noteq> Absent)
            \<longrightarrow> g_faiss_index (fst (try_cache fa g d n)) = g_faiss_index g)"
  using assms
  by (cases "emb_file d"; cases "lookup_file d"; cases "meta_file d"; cases "idx_file d")
    (auto simp: try_cache_def cache_usable_def split: meta.splits)

text \<open>
  C8, as amended. With the model and the multivector file loaded, \<open>initialize_model\<close>
  returns through the cache branch if and only if the cache is usable: embeddings, lookup
  table and metadata are present and parseable, the stored \<open>row_count\<close> equals the number
  of catalog texts, the stored model identifier equals \<open>MODEL_NAME\<close>, and the index file,
  where FAISS is available and the file exists, can be read. On a hit the globals are what
  the files hold and the disk is unchanged. In every other case, a read or parse failure
  inside the \<open>try\<close> block included, \<open>initialize_model\<close> does what the full rebuild does.
  The rebuild recomputes and writes embeddings, lookup table and metadata, and the index
  when FAISS is available, provided the encoder, the index build and the writes succeed;
  a cache path that cannot be written makes it fail with \<open>OSError\<close>.
\<close>

theorem initialize_model_cache:
  fixes L :: "('m, 'ix) libs"
  assumes st: "sentence_transformer L MODEL_NAME = Inr m"
    and ld: "load_multivectors d = Inr (mv, lookup)"
  shows "((\<exists>g' d'. initialize_model L fa g d = Inr (g', d', CacheHit))
            \<longleftrightarrow> cache_usable fa d (length mv))
    \<and> (cache_usable fa d (length mv) \<longrightarrow>
          (\<exists>g' embs df. initialize_model L fa g d = Inr (g', d, CacheHit)
             \<and> emb_file d = Good embs \<and> lookup_file d = Good df
             \<and> g_model g' = Some m \<and> g_embeddings g' = Some embs \<and> g_lookup_df g' = Some df
             \<and> (fa \<and> idx_file d \<noteq> Absent
                   \<longrightarrow> (\<exists>ix. idx_file d = Good ix \<and> g_faiss_index g' = Some ix))))
    \<and> (\<not> cache_usable fa d (length mv) \<longrightarrow>
          initialize_model L fa g d
            = rebuild L fa (g \<lparr> g_model := Some m \<rparr>) d m (map (\<lambda>r. py_str (mv_text r)) mv) lookup)
    \<and> (\<not> cache_usable fa d (length mv)
          \<and> encode L m (map (\<lambda>r. py_str (mv_text r)) mv) = Inr embs
          \<and> writable d EMB_MULTI \<and> writable d LOOKUP_MULTI \<and> writable d META_MULTI
          \<and> (fa \<longrightarrow> faiss_build L embs = Inr ix \<and> writable d IDX_MULTI) \<longrightarrow>
          (\<exists>g' d'. initialize_model L fa g d = Inr (g', d', Rebuilt)
             \<and> g_model g' = Some m \<and> g_embeddings g' = Some embs \<and> g_lookup_df g' = Some lookup
             \<and> (fa \<longrightarrow> g_faiss_index g' = Some ix \<and> idx_file d' = Good ix)
             \<and> emb_file d' = Good embs \<and> lookup_file d' = Good lookup
             \<and> meta_file d' = Good (Object (Some (int (length mv))) (Some MODEL_NAME))))
    \<and> (\<not> cache_usable fa d (length mv)
          \<and> encode L m (map (\<lambda>r. py_str (mv_text r)) mv) = Inr embs
          \<and> \<not> (writable d EMB_MULTI \<and> writable d LOOKUP_MULTI \<and> writable d META_MULTI) \<longrightarrow>
          initialize_model L fa g d = Inl OSError)
    \<and> (\<not> cache_usable fa d (length mv)
          \<and> encode L m (map (\<lambda>r. py_str (mv_text r)) mv) = Inr embs
          \<and> fa \<and> faiss_build L embs = Inr ix \<and> \<not> writable d IDX_MULTI \<longrightarrow>
          initialize_model L fa g d = Inl OSError)"
proof -
  let ?g1 = "g \<lparr> g_model := Some m \<rparr>"
  let ?texts = "map (\<lambda>r. py_str (mv_text r)) mv"
  let ?t = "try_cache fa ?g1 d (length mv)"
  have init: "initialize_model L fa g d
      = (if snd ?t then Inr (fst ?t, d, CacheHit) else rebuild L fa (fst ?t) d m ?texts lookup)"
    by (simp add: initialize_model_def st ld Let_def case_prod_beta)
  have hit: "initialize_model L fa g d = Inr (fst ?t, d, CacheHit)"
    if "cache_usable fa d (length mv)"
    using that init try_cache_returns [of fa ?g1 d "length mv"] by simp
  have miss: "initialize_model L fa g d = rebuild L fa ?g1 d m ?texts lookup"
    if "\<not> cache_usable fa d (length mv)"
    using that init try_cache_returns [of fa ?g1 d "length mv"]
      try_cache_miss [OF that, of L ?g1 m ?texts lookup] by simp
  have not_hit: "rebuild L fa ?g1 d m ?texts lookup \<noteq> Inr (g', d', CacheHit)" for g' d'
    by (auto simp: rebuild_def Let_def split: sum.splits)
  have p1: "(\<exists>g' d'. initialize_model L fa g d = Inr (g', d', CacheHit))
      \<longleftrightarrow> cache_usable fa d (length mv)"
    using hit miss not_hit by metis
  have p2: "\<exists>g' embs df. initialize_model L fa g d = Inr (g', d, CacheHit)
             \<and> emb_file d = Good embs \<and> lookup_file d = Good df
             \<and> g_model g' = Some m \<and> g_embeddings g' = Some embs \<and> g_lookup_df g' = Some df
             \<and> (fa \<and> idx_file d \<noteq> Absent
                   \<longrightarrow> (\<exists>ix. idx_file d = Good ix \<and> g_faiss_index g' = Some ix))"
    if u: "cache_usable fa d (length mv)"
    using hit [OF u] try_cache_hit [OF u, of ?g1] by auto
  have p4: "\<exists>g' d'. initialize_model L fa g d = Inr (g', d', Rebuilt)
             \<and> g_model g' = Some m \<and> g_embeddings g' = Some embs \<and> g_lookup_df g' = Some lookup
             \<and> (fa \<longrightarrow> g_faiss_index g' = Some ix \<and> idx_file d' = Good ix)
             \<and> emb_file d' = Good embs \<and> lookup_file d' = Good lookup
             \<and> meta_file d' = Good (Object (Some (int (length mv))) (Some MODEL_NAME))"
    if u: "\<not> cache_usable fa d (length mv)" and e: "encode L m ?texts = Inr embs"
      and w: "writable d EMB_MULTI" "writable d LOOKUP_MULTI" "writable d META_MULTI"
      and b: "fa \<longrightarrow> faiss_build L embs = Inr ix \<and> writable d IDX_MULTI"
    using miss [OF u] e w b by (auto simp: rebuild_def Let_def)
  have p5: "initialize_model L fa g d = Inl OSError"
    if u: "\<not> cache_usable fa d (length mv)" and e: "encode L m ?texts = Inr embs"
      and w: "\<not> (writable d EMB_MULTI \<and> writable d LOOKUP_MULTI \<and> writable d META_MULTI)"
    using miss [OF u] e w by (auto simp: rebuild_def)
  have p6: "initialize_model L fa g d = Inl OSError"
    if u: "\<not> cache_usable fa d (length mv)" and e: "encode L m ?texts = Inr embs"
      and b: "fa" "faiss_build L embs = Inr ix" "\<not> writable d IDX_MULTI"
    using miss [OF u] e b by (auto simp: rebuild_def Let_def)
  show ?thesis
    using p1 p2 miss p4 p5 p6 by blast
qed

lemma demo_model: "sentence_transformer demo_libs MODEL_NAME = Inr ()"
  by (simp add: demo_libs_def)

lemma demo_load_cached:
  "load_multivectors cached_disk
     = Inr ([mk_mv ''X'' ''ab'' ''CANON_EN''], [join_row (mk_mv ''X'' ''ab'' ''CANON_EN'') None])"
  "load_multivectors broken_disk
     = Inr ([mk_mv ''X'' ''ab'' ''CANON_EN''], [join_row (mk_mv ''X'' ''ab'' ''CANON_EN'') None])"
  "load_multivectors locked_disk
     = Inr ([mk_mv ''X'' ''ab'' ''CANON_EN''], [join_row (mk_mv ''X'' ''ab'' ''CANON_EN'') None])"
  by (simp_all add: load_multivectors_def cached_disk_def broken_disk_def locked_disk_def
      merge_left_def)

lemma demo_usable:
  "cache_usable False cached_disk (length [mk_mv ''X'' ''ab'' ''CANON_EN''])"
  "\<not> cache_usable False broken_disk (length [mk_mv ''X'' ''ab'' ''CANON_EN''])"
  "\<not> cache_usable False locked_disk (length [mk_mv ''X'' ''ab'' ''CANON_EN''])"
  by (simp_all add: cache_usable_def cached_disk_def broken_disk_def locked_disk_def)

lemma demo_writable:
  "writable broken_disk EMB_MULTI"
  "writable broken_disk LOOKUP_MULTI"
  "writable broken_disk META_MULTI"
  "\<not> writable locked_disk EMB_MULTI"
  by (simp_all add: cached_disk_def broken_disk_def locked_disk_def)

lemma demo_encode_one:
  "encode demo_libs () (map (\<lambda>r. py_str (mv_text r)) [mk_mv ''X'' ''ab'' ''CANON_EN'']) = Inr [[1, 0]]"
  by (simp add: demo_libs_def)

lemma demo_locked:
  "initialize_model demo_libs False no_globals locked_disk = Inl OSError"
proof -
  have tc: "try_cache False (no_globals \<lparr> g_model := Some () \<rparr>) locked_disk (Suc 0)
      = (no_globals \<lparr> g_model := Some () \<rparr>, False)"
    by (simp add: try_cache_def locked_disk_def broken_disk_def cached_disk_def)
  show ?thesis
    by (simp add: initialize_model_def demo_model demo_load_cached(3) tc rebuild_def
        demo_libs_def demo_writable)
qed

theorem initialize_model_cache_witness:
  "cache_usable False cached_disk (length [mk_mv ''X'' ''ab'' ''CANON_EN''])
   \<and> (\<exists>g'. initialize_model demo_libs False no_globals cached_disk = Inr (g', cached_disk, CacheHit)
          \<and> g_embeddings g' = Some [[0, 1]])
   \<and> \<not> cache_usable False broken_disk (length [mk_mv ''X'' ''ab'' ''CANON_EN''])
   \<and> writable broken_disk EMB_MULTI \<and> writable broken_disk LOOKUP_MULTI
   \<and> writable broken_disk META_MULTI
   \<and> (\<exists>g' d'. initialize_model demo_libs False no_globals broken_disk = Inr (g', d', Rebuilt)
          \<and> g_embeddings g' = Some [[1, 0]] \<and> emb_file d' = Good [[1, 0]])
   \<and> \<not> cache_usable False locked_disk (length [mk_mv ''X'' ''ab'' ''CANON_EN''])
   \<and> \<not> writable locked_disk EMB_MULTI
   \<and> initialize_model demo_libs False no_globals locked_disk = Inl OSError"
proof -
  have e: "emb_file cached_disk = Good [[0, 1]]"
    by (simp add: cached_disk_def)
  note hit = initialize_model_cache [OF demo_model demo_load_cached(1), of False no_globals]
  note miss = initialize_model_cache [OF demo_model demo_load_cached(2), of False no_globals
      "[[1, 0]]"]
  note fatal = initialize_model_cache [OF demo_model demo_load_cached(3), of False no_globals
      "[[1, 0]]"]
  have a: "\<exists>g'. initialize_model demo_libs False no_globals cached_disk = Inr (g', cached_disk, CacheHit)
          \<and> g_embeddings g' = Some [[0, 1]]"
    using hit demo_usable(1) e by (metis stored.inject)
  have "\<exists>g' d'. initialize_model demo_libs False no_globals broken_disk = Inr (g', d', Rebuilt)
          \<and> g_model g' = Some () \<and> g_embeddings g' = Some [[1, 0]]
          \<and> g_lookup_df g' = Some [join_row (mk_mv ''X'' ''ab'' ''CANON_EN'') None]
          \<and> (False \<longrightarrow> g_faiss_index g' = Some [] \<and> idx_file d' = Good [])
          \<and> emb_file d' = Good [[1, 0]]
          \<and> lookup_file d' = Good [join_row (mk_mv ''X'' ''ab'' ''CANON_EN'') None]
          \<and> meta_file d'
              = Good (Object (Some (int (length [mk_mv ''X'' ''ab'' ''CANON_EN''])))
                  (Some MODEL_NAME))"
    using miss [of "[]"] demo_usable(2) demo_encode_one demo_writable by blast
  then have b: "\<exists>g' d'. initialize_model demo_libs False no_globals broken_disk = Inr (g', d', Rebuilt)
          \<and> g_embeddings g' = Some [[1, 0]] \<and> emb_file d' = Good [[1, 0]]"
    by blast
  have c: "initialize_model demo_libs False no_globals locked_disk = Inl OSError"
    using fatal [of "[]"] demo_usable(3) demo_encode_one demo_writable(4) by blast
  show ?thesis
    using a b c demo_usable demo_writable by blast
qed

text \<open>
  C8 as stated fails in its last part. The metadata of this cache match the catalog and the
  model, so the cache is claimed; reading the embeddings raises, which is caught; the
  rebuild then raises on saving that same path, outside the \<open>try\<close>, and
  \<open>initialize_model\<close> ends with the error.
\<close>

theorem initialize_model_fatal_counterexample:
  "meta_file locked_disk = Good (Object (Some (int (length [mk_mv ''X'' ''ab'' ''CANON_EN''])))
      (Some MODEL_NAME))
   \<and> is_good (lookup_file locked_disk)
   \<and> emb_file locked_disk = Corrupt
   \<and> initialize_model demo_libs False no_globals locked_disk = Inl OSError"
  using demo_locked by (simp add: locked_disk_def broken_disk_def cached_disk_def)

lemma drop_duplicates_distinct: "distinct xs \<Longrightarrow> drop_duplicates xs = xs"
  by (simp add: drop_duplicates_def distinct_remdups_id)

lemma merge_left_length:
  assumes "distinct (map fst can_map)"
  shows "length (merge_left mv can_map) = length mv"
proof -
  have one: "length (filter (\<lambda>(p, c). p = k) can_map) \<le> 1" for k
    using assms
  proof (induction can_map)
    case Nil
    then show ?case by simp
  next
    case (Cons a can_map)
    then show ?case
      by (cases a) (auto simp: filter_empty_conv image_iff)
  qed
  have "length (case filter (\<lambda>(p, c). p = mv_policy_item_id r) can_map of
                  [] \<Rightarrow> [join_row r None]
                | ms \<Rightarrow> map (\<lambda>(p, c). join_row r c) ms) = 1" for r
    using one [of "mv_policy_item_id r"]
    by (cases "filter (\<lambda>(p, c). p = mv_policy_item_id r) can_map") auto
  then show ?thesis
    unfolding merge_left_def by (induction mv) auto
qed

text \<open>
  C4 fails on the code. \<open>drop_duplicates()\<close> removes repeated pairs of identifier and
  canonical name, not repeated identifiers, so a cards file with two canonical names for
  one \<open>policy_item_id\<close> makes the left merge return two lookup rows for one catalog text:
  after a successful rebuild there is one embedding and there are two lookup rows. (With
  one canonical name per identifier the merge keeps the row count: \<open>merge_left_length\<close>.)
\<close>

theorem initialize_model_misaligned:
  "\<exists>g' d'. initialize_model demo_libs False no_globals dup_disk = Inr (g', d', Rebuilt)
     \<and> g_embeddings g' = Some [[1, 0]]
     \<and> g_lookup_df g'
         = Some [join_row (mk_mv ''X'' ''ab'' ''CANON_EN'') (Some (ascii ''cd'')),
                 join_row (mk_mv ''X'' ''ab'' ''CANON_EN'') (Some (ascii ''ef''))]
     \<and> length [[1, 0 :: real]] \<noteq> length
          [join_row (mk_mv ''X'' ''ab'' ''CANON_EN'') (Some (ascii ''cd'')),
           join_row (mk_mv ''X'' ''ab'' ''CANON_EN'') (Some (ascii ''ef''))]"
proof -
  have dd: "drop_duplicates [(Some (ascii ''X''), Some (ascii ''cd'')),
                             (Some (ascii ''X''), Some (ascii ''ef''))]
      = [(Some (ascii ''X''), Some (ascii ''cd'')), (Some (ascii ''X''), Some (ascii ''ef''))]"
    by (rule drop_duplicates_distinct) (simp add: ascii_codes)
  have ld: "load_multivectors dup_disk
      = Inr ([mk_mv ''X'' ''ab'' ''CANON_EN''],
             [join_row (mk_mv ''X'' ''ab'' ''CANON_EN'') (Some (ascii ''cd'')),
              join_row (mk_mv ''X'' ''ab'' ''CANON_EN'') (Some (ascii ''ef''))])"
    by (simp add: load_multivectors_def dup_disk_def dd merge_left_def mk_mv_def)
  have tc: "try_cache False (no_globals \<lparr> g_model := Some () \<rparr>) dup_disk (Suc 0)
      = (no_globals \<lparr> g_model := Some () \<rparr>, False)"
    by (simp add: try_cache_def dup_disk_def)
  have w: "writable dup_disk EMB_MULTI" "writable dup_disk LOOKUP_MULTI"
      "writable dup_disk META_MULTI"
    by (simp_all add: dup_disk_def)
  show ?thesis
    by (simp add: initialize_model_def demo_model ld tc rebuild_def demo_libs_def Let_def w)
qed

end
